theory Spec2Isabelle
  imports Main "HOL-Library.Sublist" "HOL-Library.Multiset" "HOL-Library.AList"
begin

section \<open>JavaScript strings and objects\<close>

text \<open>
  Strings are lists of characters. The helpers below are the string methods that the
  deployment code calls, restricted to ASCII (a \<^typ>\<open>char\<close> is one byte).
  An object that the code enumerates (\<^verbatim>\<open>for (const k in obj)\<close>, \<^verbatim>\<open>Object.keys\<close>) is an
  association list in enumeration order; an object that is only written and read by key is
  a map, \<^verbatim>\<open>Object.assign({}, a, b)\<close> being \<open>a ++ b\<close> (the keys of \<open>b\<close> win).
\<close>

type_synonym 'v obj = "(string \<times> 'v) list"

definition toUpperCaseChar :: "char \<Rightarrow> char" where
  "toUpperCaseChar c =
     (case map_of (zip ''abcdefghijklmnopqrstuvwxyz'' ''ABCDEFGHIJKLMNOPQRSTUVWXYZ'') c of
        Some u \<Rightarrow> u
      | None \<Rightarrow> c)"

definition toUpperCase :: "string \<Rightarrow> string" where
  "toUpperCase s = map toUpperCaseChar s"

text \<open>\<^verbatim>\<open>xs.join(sep)\<close>\<close>

fun join :: "string \<Rightarrow> string list \<Rightarrow> string" where
  "join sep [] = []"
| "join sep [x] = x"
| "join sep (x # y # ys) = x @ sep @ join sep (y # ys)"

text \<open>\<^verbatim>\<open>s.split(sep)\<close> for a one-character separator: the empty string splits into one
  empty token.\<close>

fun split :: "char \<Rightarrow> string \<Rightarrow> string list" where
  "split sep [] = [[]]"
| "split sep (c # cs) =
     (if c = sep then [] # split sep cs
      else (case split sep cs of [] \<Rightarrow> [[c]] | t # ts \<Rightarrow> (c # t) # ts))"

text \<open>\<^verbatim>\<open>s.indexOf(pat) !== -1\<close>\<close>

fun indexOf_found :: "string \<Rightarrow> string \<Rightarrow> bool" where
  "indexOf_found [] pat = (pat = [])"
| "indexOf_found (c # cs) pat = (prefix pat (c # cs) \<or> indexOf_found cs pat)"

text \<open>\<^verbatim>\<open>s.startsWith(p)\<close>\<close>

definition startsWith :: "string \<Rightarrow> string \<Rightarrow> bool" where
  "startsWith s p = prefix p s"

section \<open>Template fragments\<close>

text \<open>
  The fragment templates (\<^verbatim>\<open>cf-lambda-function.json\<close>, \<^verbatim>\<open>cf-api-method.json\<close>, ...) are read
  from files that are not among the sources. A fragment is therefore the template's
  kind together with the values spliced into its placeholders and the reference the code
  stores in \<^verbatim>\<open>Properties.ParentId\<close> or \<^verbatim>\<open>Properties.ResourceId\<close>; every placeholder is taken
  to occur in its template. A number that may be \<^verbatim>\<open>undefined\<close> or \<^verbatim>\<open>null\<close> is an
  \<^typ>\<open>int option\<close>. Fragments built by modules outside the sources (the base template,
  the five trigger builders) are \<open>External\<close>. The text of a template and what
  \<^verbatim>\<open>JSON.parse\<close> makes of a spliced \<^verbatim>\<open>undefined\<close> are not modelled.
\<close>

datatype resource_ref =
    RootResourceId  \<comment> \<open>\<^verbatim>\<open>{ 'Fn::GetAtt': ['RiseAPI', 'RootResourceId'] }\<close>\<close>
  | Ref string      \<comment> \<open>\<^verbatim>\<open>{ Ref: name }\<close>\<close>

datatype 'x fragment =
    LambdaFunction (handler: string) (s3Key: string) (s3Bucket: string)
                   (timeoutOf: "int option") (memorySizeOf: "int option")
  | LambdaVersion string
  | LambdaPermission string
  | ApiResource (lastPath: string) (parentId: resource_ref)
  | ApiMethod (httpMethod: string) (functionOf: string) (resourceId: resource_ref)
  | ApiCors (corsMethodsOf: string) (corsResourceId: resource_ref)
  | External 'x

type_synonym 'x resources = "string \<rightharpoonup> 'x fragment"

section \<open>Route tree builder\<close>

text \<open>A method binding \<^verbatim>\<open>methods[m]['x-rise']\<close> with its fields \<^verbatim>\<open>function\<close> and \<^verbatim>\<open>cors\<close>, and
  the default settings \<^verbatim>\<open>routes['x-rise'].default\<close>; a flag that is absent or \<^verbatim>\<open>null\<close> is
  \<open>None\<close>. Every method of a route map is taken to carry its \<^verbatim>\<open>x-rise\<close> binding (the source
  reads its fields without a check).\<close>

record x_rise =
  x_function :: string
  x_cors :: "bool option"

record api_setting =
  default_cors :: "bool option"

record routes =
  paths :: "x_rise obj obj"
  x_rise_default :: "api_setting option"

text \<open>A node of \<^verbatim>\<open>pathTree\<close>: \<^verbatim>\<open>{ name, isRoot, children }\<close>. The children are looked up by
  token; tokens that name inherited properties of a JavaScript object (\<^verbatim>\<open>constructor\<close>, ...)
  are outside the model.\<close>

datatype tree = Node (name: string) (isRoot: bool) (children: "tree obj")

text \<open>The reference that \<^verbatim>\<open>createAPIMethod\<close> stores as \<^verbatim>\<open>Properties.ResourceId\<close>, and the value
  of \<^verbatim>\<open>cors\<close> that its loop tests: the flag of the method when it is not \<^verbatim>\<open>null\<close>, else the
  default flag, an absent one being falsy.\<close>

definition resourceIdOf :: "tree \<Rightarrow> resource_ref" where
  "resourceIdOf res = (if isRoot res then RootResourceId else Ref (name res))"

definition resolveCors :: "api_setting \<Rightarrow> x_rise \<Rightarrow> bool" where
  "resolveCors defaultSetting method =
     (case x_cors method of
        Some c \<Rightarrow> c
      | None \<Rightarrow> (case default_cors defaultSetting of Some c \<Rightarrow> c | None \<Rightarrow> False))"

text \<open>The loop \<^verbatim>\<open>for (const m in methods)\<close> of \<^verbatim>\<open>createAPIMethod\<close>, on the pair
  \<^verbatim>\<open>(result, corsMethods)\<close>.\<close>

fun createAPIMethod_loop ::
  "tree \<Rightarrow> api_setting \<Rightarrow> x_rise obj \<Rightarrow> 'x resources \<times> string list \<Rightarrow> 'x resources \<times> string list"
where
  "createAPIMethod_loop res defaultSetting [] (result, corsMethods) = (result, corsMethods)"
| "createAPIMethod_loop res defaultSetting ((m, method) # ms) (result, corsMethods) =
     (let methodResourceName = name res @ toUpperCase m;
          methodJSON = ApiMethod (toUpperCase m) (x_function method) (resourceIdOf res);
          result' = result(methodResourceName \<mapsto> methodJSON)
      in createAPIMethod_loop res defaultSetting ms
           (result',
            if resolveCors defaultSetting method then corsMethods @ [toUpperCase m]
            else corsMethods))"

definition createAPIMethod :: "tree \<Rightarrow> api_setting \<Rightarrow> x_rise obj \<Rightarrow> 'x resources" where
  "createAPIMethod res defaultSetting methods =
     (case createAPIMethod_loop res defaultSetting methods (Map.empty, []) of
        (result, corsMethods) \<Rightarrow>
          if length corsMethods > 0 then
            result(name res @ ''OPTIONS'' \<mapsto>
                     ApiCors (join '','' (corsMethods @ [''OPTIONS''])) (resourceIdOf res))
          else result)"

definition createAPIResource :: "tree \<Rightarrow> string \<Rightarrow> string \<Rightarrow> 'x resources" where
  "createAPIResource parent name' p =
     [name' \<mapsto> ApiResource p (if isRoot parent then RootResourceId else Ref (name parent))]"

text \<open>The normalisation of a path key in \<^verbatim>\<open>getAPIResources\<close>: one leading separator is
  removed; when the rest ends with a separator it is cut with \<^verbatim>\<open>substr(0, p.length - 1)\<close>,
  the length being that of the key \<open>p\<close>, not of the trimmed path.\<close>

definition trimPath :: "string \<Rightarrow> string" where
  "trimPath p =
     (let trimedPath = (case p of [] \<Rightarrow> p | c # cs \<Rightarrow> if c = CHR ''/'' then cs else p)
      in if trimedPath \<noteq> [] \<and> last trimedPath = CHR ''/''
         then take (length p - 1) trimedPath
         else trimedPath)"

text \<open>\<^verbatim>\<open>token.replace(/[\{\}]/g, '')\<close>\<close>

definition stripBraces :: "string \<Rightarrow> string" where
  "stripBraces token = filter (\<lambda>c. c \<noteq> CHR ''{'' \<and> c \<noteq> CHR ''}'') token"

text \<open>
  The walk \<^verbatim>\<open>for (let i = 0; i < tokens.length; i++)\<close> along one path, from the node
  \<open>parent\<close>. The source mutates the tree through the alias \<open>parent\<close>; the model returns the
  updated node with the fragments. \<open>titlecase\<close> is \<^verbatim>\<open>require('../utils/stringHelper')\<close>,
  which is not among the sources, and is a parameter. The last token is the one with no
  token after it.
\<close>

fun walk ::
  "(string \<Rightarrow> string) \<Rightarrow> api_setting \<Rightarrow> x_rise obj \<Rightarrow> tree \<Rightarrow> string list \<Rightarrow> 'x resources
     \<Rightarrow> tree \<times> 'x resources"
where
  "walk titlecase defaultSetting methods parent [] result = (parent, result)"
| "walk titlecase defaultSetting methods parent (token # rest) result =
     (if token = [] then
        walk titlecase defaultSetting methods parent rest
          (result ++ createAPIMethod parent defaultSetting methods)
      else
        let name' = name parent @ titlecase (stripBraces token);
            (child, result1) =
              (case map_of (children parent) token of
                 None \<Rightarrow> (Node name' False [],
                           result ++ createAPIResource parent name' token)
               | Some c \<Rightarrow> (c, result));
            result2 = (if rest = [] then result1 ++ createAPIMethod child defaultSetting methods
                       else result1);
            (child', result3) = walk titlecase defaultSetting methods child rest result2
        in (Node (name parent) (isRoot parent) (AList.update token child' (children parent)),
            result3))"

text \<open>The loop \<^verbatim>\<open>for (const p in paths)\<close> on the pair of the tree and the result.\<close>

fun getAPIResources_loop ::
  "(string \<Rightarrow> string) \<Rightarrow> api_setting \<Rightarrow> x_rise obj obj \<Rightarrow> tree \<times> 'x resources
     \<Rightarrow> tree \<times> 'x resources"
where
  "getAPIResources_loop titlecase defaultSetting [] (pathTree, result) = (pathTree, result)"
| "getAPIResources_loop titlecase defaultSetting ((p, methods) # ps) (pathTree, result) =
     getAPIResources_loop titlecase defaultSetting ps
       (walk titlecase defaultSetting methods pathTree (split CHR ''/'' (trimPath p)) result)"

definition getAPIResources :: "(string \<Rightarrow> string) \<Rightarrow> routes \<Rightarrow> 'x resources" where
  "getAPIResources titlecase routes' =
     (let pathTree = Node ''RiseAPIResource'' True [];
          defaultSetting = (case x_rise_default routes' of
                              Some d \<Rightarrow> d
                            | None \<Rightarrow> \<lparr>default_cors = None\<rparr>)
      in snd (getAPIResources_loop titlecase defaultSetting (paths routes')
                (pathTree, Map.empty)))"

section \<open>Function resource builder\<close>

text \<open>
  A trigger declaration is a one-key object from the kind to its configuration; the
  configuration is read by the trigger builders only and is a type parameter.
  A manifest entry \<^verbatim>\<open>functions[name]\<close> holds the optional settings; the manifest maps a
  name to an entry or to \<^verbatim>\<open>null\<close> (\<open>None\<close>).
\<close>

record 'cfg function_setting =
  timeout :: "int option"
  memory :: "int option"
  triggers :: "'cfg obj list option"
  bare :: bool

type_synonym 'cfg manifest = "'cfg function_setting option obj"

text \<open>\<^verbatim>\<open>functions[name]\<close> as a condition: \<open>None\<close> when the key is absent or holds
  \<^verbatim>\<open>null\<close>.\<close>

definition entryOf :: "'cfg manifest \<Rightarrow> string \<Rightarrow> 'cfg function_setting option" where
  "entryOf functions funcName =
     (case map_of functions funcName of Some (Some e) \<Rightarrow> Some e | _ \<Rightarrow> None)"

record uploaded_function =
  functionName :: string
  uploadPath :: string

fun getFunctionResources_loop ::
  "string \<Rightarrow> 'cfg manifest \<Rightarrow> 'cfg function_setting \<Rightarrow> uploaded_function list \<Rightarrow> 'x resources
     \<Rightarrow> 'x resources"
where
  "getFunctionResources_loop bucketName functions defaultSetting [] resources = resources"
| "getFunctionResources_loop bucketName functions defaultSetting (uploadedFunction # rest)
     resources =
     (let funcName = functionName uploadedFunction;
          func = entryOf functions funcName;
          timeout0 = timeout defaultSetting;
          memorySize0 = memory defaultSetting;
          timeout' = (case func of
                        None \<Rightarrow> timeout0
                      | Some f \<Rightarrow> (case timeout f of Some t \<Rightarrow> Some t | None \<Rightarrow> timeout0));
          memorySize' = (case func of
                        None \<Rightarrow> memorySize0
                      | Some f \<Rightarrow> (case memory f of Some m \<Rightarrow> Some m | None \<Rightarrow> memorySize0));
          resources1 = resources(funcName \<mapsto>
                         LambdaFunction ''index'' (uploadPath uploadedFunction) bucketName
                           timeout' memorySize');
          resources2 = resources1(funcName @ ''Version'' \<mapsto> LambdaVersion funcName);
          resources3 = resources2(funcName @ ''Permission'' \<mapsto> LambdaPermission funcName)
      in getFunctionResources_loop bucketName functions defaultSetting rest resources3)"

definition getFunctionResources ::
  "string \<Rightarrow> string \<Rightarrow> 'cfg manifest \<Rightarrow> uploaded_function list \<Rightarrow> 'x resources"
where
  "getFunctionResources bucketName version functions uploadedFunctions =
     (let defaultSetting = (case entryOf functions ''default'' of
                              Some d \<Rightarrow> d
                            | None \<Rightarrow> \<lparr>timeout = Some 3, memory = Some 128,
                                        triggers = None, bare = False\<rparr>)
      in getFunctionResources_loop bucketName functions defaultSetting uploadedFunctions
           Map.empty)"

text \<open>The older \<^verbatim>\<open>DeployFunctions\<close> walks the keys of the manifest instead and leaves the key
  \<^verbatim>\<open>default\<close> out; the names it writes into \<^verbatim>\<open>Resources\<close> are the function name (the key
  without its first path separator) and that name followed by \<^verbatim>\<open>Version\<close>.\<close>

fun removeFirst :: "char \<Rightarrow> string \<Rightarrow> string" where
  "removeFirst sep [] = []"
| "removeFirst sep (c # cs) = (if c = sep then cs else c # removeFirst sep cs)"

fun DeployFunctions_names :: "string list \<Rightarrow> string list" where
  "DeployFunctions_names [] = []"
| "DeployFunctions_names (funcPath # rest) =
     (let funcName = removeFirst CHR ''/'' funcPath
      in if funcPath = ''default'' then DeployFunctions_names rest
         else funcName # (funcName @ ''Version'') # DeployFunctions_names rest)"

section \<open>Trigger resource builder\<close>

text \<open>
  The five trigger builders (\<^verbatim>\<open>./triggers/s3\<close>, ...) are not among the sources: they are
  parameters, taken as functions from their arguments to the fragments they return.
  \<^verbatim>\<open>log.error\<close> appends to a list of messages.
\<close>

record ('cfg, 'x) trigger_builders =
  getS3Trigger :: "'cfg \<Rightarrow> string \<Rightarrow> 'x resources"
  getCloudWatchEventTrigger :: "'cfg \<Rightarrow> string \<Rightarrow> 'x resources"
  getCloudWatchLogsTrigger :: "'cfg \<Rightarrow> string \<Rightarrow> string \<Rightarrow> 'x resources"
  getStreamTrigger :: "'cfg \<Rightarrow> string \<Rightarrow> 'x fragment option \<Rightarrow> 'x resources"
  getSNSTrigger :: "'cfg \<Rightarrow> string \<Rightarrow> 'x resources"

text \<open>The body of \<^verbatim>\<open>for (const i in triggers)\<close>: \<^verbatim>\<open>Object.keys(triggers[i])[0]\<close> is the
  first key of the declaration, \<^verbatim>\<open>undefined\<close> for an empty one.\<close>

fun trigger_step ::
  "('cfg, 'x) trigger_builders \<Rightarrow> string \<Rightarrow> 'x fragment option \<Rightarrow> string \<Rightarrow> 'cfg obj
     \<Rightarrow> 'x resources \<times> string list \<Rightarrow> 'x resources \<times> string list"
where
  "trigger_step b region roleResource funcName [] (resources, log) =
     (resources, log @ [''Unknown trigger undefined.''])"
| "trigger_step b region roleResource funcName ((triggerName, trigger) # others)
     (resources, log) =
     (if triggerName = ''s3'' then
        (resources ++ getS3Trigger b trigger funcName, log)
      else if triggerName = ''cloudwatch_events'' then
        (resources ++ getCloudWatchEventTrigger b trigger funcName, log)
      else if triggerName = ''cloudwatch_logs'' then
        (resources ++ getCloudWatchLogsTrigger b trigger funcName region, log)
      else if triggerName = ''stream'' then
        (resources ++ getStreamTrigger b trigger funcName roleResource, log)
      else if triggerName = ''sns'' then
        (resources ++ getSNSTrigger b trigger funcName, log)
      else (resources, log @ [''Unknown trigger '' @ triggerName @ ''.'']))"

fun triggers_loop ::
  "('cfg, 'x) trigger_builders \<Rightarrow> string \<Rightarrow> 'x fragment option \<Rightarrow> string \<Rightarrow> 'cfg obj list
     \<Rightarrow> 'x resources \<times> string list \<Rightarrow> 'x resources \<times> string list"
where
  "triggers_loop b region roleResource funcName [] acc = acc"
| "triggers_loop b region roleResource funcName (t # ts) acc =
     triggers_loop b region roleResource funcName ts
       (trigger_step b region roleResource funcName t acc)"

text \<open>The trigger list that the loop over the manifest uses for one entry: the default list,
  replaced by the entry's own \<^verbatim>\<open>triggers\<close> when \<^verbatim>\<open>functions[funcName] != null\<close>. The keys of
  an object are distinct, so \<^verbatim>\<open>functions[funcName]\<close> is the entry met in the enumeration.\<close>

definition triggersFor ::
  "'cfg obj list option \<Rightarrow> 'cfg function_setting option \<Rightarrow> 'cfg obj list option"
where
  "triggersFor defaultTriggers entry =
     (case entry of None \<Rightarrow> defaultTriggers | Some f \<Rightarrow> triggers f)"

fun getTriggerResources_loop ::
  "('cfg, 'x) trigger_builders \<Rightarrow> string \<Rightarrow> 'x fragment option \<Rightarrow> 'cfg obj list option
     \<Rightarrow> 'cfg manifest \<Rightarrow> 'x resources \<times> string list \<Rightarrow> 'x resources \<times> string list"
where
  "getTriggerResources_loop b region roleResource defaultTriggers [] acc = acc"
| "getTriggerResources_loop b region roleResource defaultTriggers ((funcName, entry) # rest)
     acc =
     (if funcName = ''default'' then
        getTriggerResources_loop b region roleResource defaultTriggers rest acc
      else
        (case triggersFor defaultTriggers entry of
           None \<Rightarrow> getTriggerResources_loop b region roleResource defaultTriggers rest acc
         | Some ts \<Rightarrow>
             getTriggerResources_loop b region roleResource defaultTriggers rest
               (triggers_loop b region roleResource funcName ts acc)))"

definition getTriggerResources ::
  "('cfg, 'x) trigger_builders \<Rightarrow> 'cfg manifest \<Rightarrow> string \<Rightarrow> 'x fragment option
     \<Rightarrow> 'x resources \<times> string list"
where
  "getTriggerResources b functions region roleResource =
     (let defaultTriggers = (case entryOf functions ''default'' of
                               Some d \<Rightarrow> triggers d
                             | None \<Rightarrow> None)
      in getTriggerResources_loop b region roleResource defaultTriggers functions
           (Map.empty, []))"

section \<open>Deploy session and remote calls\<close>

text \<open>
  An error of a remote call carries a code and an optional message. A step returns the
  session as the step left it, with the outcome of its promise: \<open>Resolved\<close> (fulfilled with
  the session) or \<open>Rejected\<close> with the error.
\<close>

record error =
  code :: string
  message :: "string option"

datatype outcome = Resolved | Rejected error

record ('cfg, 'x) session =
  stackName :: string
  bucketName :: string
  region :: string
  version :: string
  "functions" :: "'cfg manifest"
  compressedFunctions :: "uploaded_function list"
  routes :: routes
  state :: string
  cfTemplate :: "'x resources"

subsection \<open>Ping step\<close>

text \<open>The Lambda client: \<^verbatim>\<open>listFunctions\<close> answers with the names of the deployed functions,
  \<^verbatim>\<open>invoke\<close> with a status code and a payload, or each rejects.\<close>

record lambda_client =
  listFunctions :: "error + string list"
  invoke :: "string \<Rightarrow> string \<Rightarrow> error + int \<times> string"

definition pingPromise :: "lambda_client \<Rightarrow> string \<Rightarrow> outcome" where
  "pingPromise lambda f =
     (case invoke lambda f ''{\"riseTest\":1}'' of
        Inl err \<Rightarrow> Rejected err
      | Inr (statusCode, payload) \<Rightarrow>
          if statusCode \<noteq> 200 \<or> payload \<noteq> ''{\"test\":\"ok\"}''
          then Rejected \<lparr>code = ''Error'',
                  message = Some ''functions are not deployed properly''\<rparr>
          else Resolved)"

text \<open>The names that the two nested loops of \<^verbatim>\<open>pingPromiseAll\<close> invoke, in order: a deployed
  function once for every uploaded name whose prefix it carries.\<close>

fun pingTargets :: "string \<Rightarrow> string list \<Rightarrow> string list \<Rightarrow> string list" where
  "pingTargets stackName' uploadedFunctionNames [] = []"
| "pingTargets stackName' uploadedFunctionNames (f # fs) =
     map (\<lambda>n. f)
       (filter (\<lambda>n. startsWith f (stackName' @ ''-'' @ n)) uploadedFunctionNames)
     @ pingTargets stackName' uploadedFunctionNames fs"

text \<open>\<^verbatim>\<open>Promise.all\<close>: fulfilled when every promise is, rejected with the error of a
  rejected one (the model takes the first in the list).\<close>

fun promiseAll :: "outcome list \<Rightarrow> outcome" where
  "promiseAll [] = Resolved"
| "promiseAll (Resolved # ps) = promiseAll ps"
| "promiseAll (Rejected err # ps) = Rejected err"

definition pingPromiseAll ::
  "lambda_client \<Rightarrow> string \<Rightarrow> string list \<Rightarrow> string list \<Rightarrow> outcome" where
  "pingPromiseAll lambda stackName' uploadedFunctionNames fs =
     promiseAll (map (pingPromise lambda) (pingTargets stackName' uploadedFunctionNames fs))"

definition functionNamesToPing :: "'cfg manifest \<Rightarrow> string list" where
  "functionNamesToPing fns =
     map fst (filter (\<lambda>e. \<not> (case snd e of None \<Rightarrow> False | Some f \<Rightarrow> bare f)) fns)"

definition pingFunctions ::
  "lambda_client \<Rightarrow> ('cfg, 'x) session \<Rightarrow> ('cfg, 'x) session \<times> outcome" where
  "pingFunctions lambda session =
     (let session1 = session\<lparr>state := ''PINGING''\<rparr>
      in case listFunctions lambda of
           Inl err \<Rightarrow> (session1, Rejected err)
         | Inr fs \<Rightarrow>
             (case pingPromiseAll lambda (stackName session)
                     (functionNamesToPing (functions session)) fs of
                Rejected err \<Rightarrow> (session1, Rejected err)
              | Resolved \<Rightarrow> (session1\<lparr>state := ''PINGED''\<rparr>, Resolved)))"

subsection \<open>Update step\<close>

text \<open>
  The CloudFormation client: the outcome of \<^verbatim>\<open>updateStack\<close> and of
  \<^verbatim>\<open>waitFor('stackUpdateComplete')\<close>, \<open>None\<close> when the call is fulfilled. The session is
  an object shared with the rest of the program, and the comment in the error handler
  expects its state to be changed by a cancelling user while the request is pending:
  \<open>cancelling\<close> is the state tag written meanwhile, if any.
\<close>

record cf_client =
  cf_updateStack :: "error option"
  cf_waitFor :: "error option"
  cancelling :: "string option"

text \<open>The modules that \<^verbatim>\<open>updateStack\<close> requires from outside the sources:
  \<^verbatim>\<open>getBaseTemplate\<close> reads two template files and gives the initial \<^verbatim>\<open>Resources\<close>.\<close>

record ('cfg, 'x) modules =
  titlecase :: "string \<Rightarrow> string"
  getBaseTemplate :: "string \<Rightarrow> 'x resources"
  triggerBuilders :: "('cfg, 'x) trigger_builders"

definition waitForUpdate ::
  "cf_client \<Rightarrow> ('cfg, 'x) session \<Rightarrow> ('cfg, 'x) session \<times> outcome" where
  "waitForUpdate cf session =
     (case cf_waitFor cf of
        Some err \<Rightarrow> (session, Rejected err)
      | None \<Rightarrow> (session\<lparr>state := ''UPDATED''\<rparr>, Resolved))"

text \<open>The handler passed to \<^verbatim>\<open>.catch\<close>; \<^verbatim>\<open>if (err.message)\<close> holds for a message that is
  present and not empty.\<close>

definition updateStack_catch ::
  "('cfg, 'x) session \<Rightarrow> error \<Rightarrow> ('cfg, 'x) session \<times> outcome" where
  "updateStack_catch session err =
     (case message err of
        None \<Rightarrow> (session, Rejected err)
      | Some msg \<Rightarrow>
          if msg \<noteq> [] then
            if indexOf_found msg ''No updates are to be performed'' then (session, Resolved)
            else if state session \<noteq> ''UPDATING''
                    \<and> indexOf_found msg ''Resource is not in the state stackUpdateComplete''
            then (session, Resolved)
            else (session, Rejected err)
          else (session, Rejected err))"

definition buildTemplate :: "('cfg, 'x) modules \<Rightarrow> ('cfg, 'x) session \<Rightarrow> 'x resources" where
  "buildTemplate mods session =
     (let resources0 = getBaseTemplate mods (stackName session);
          resources1 = resources0 ++ getFunctionResources (bucketName session) (version session)
                                       (functions session) (compressedFunctions session);
          resources2 = resources1 ++ getAPIResources (titlecase mods) (routes session);
          roleResource = resources2 ''RiseRole''
      in resources2 ++ fst (getTriggerResources (triggerBuilders mods) (functions session)
                              (region session) roleResource))"

definition updateStack ::
  "('cfg, 'x) modules \<Rightarrow> cf_client \<Rightarrow> ('cfg, 'x) session \<Rightarrow> ('cfg, 'x) session \<times> outcome"
where
  "updateStack mods cf session =
     (let session1 = session\<lparr>cfTemplate := buildTemplate mods session, state := ''UPDATING''\<rparr>;
          session2 = (case cancelling cf of
                        None \<Rightarrow> session1
                      | Some tag \<Rightarrow> session1\<lparr>state := tag\<rparr>)
      in case cf_updateStack cf of
           Some err \<Rightarrow> updateStack_catch session2 err
         | None \<Rightarrow>
             (case waitForUpdate cf session2 of
                (session3, Rejected err) \<Rightarrow> updateStack_catch session3 err
              | (session3, Resolved) \<Rightarrow> (session3, Resolved)))"

section \<open>Notions used in the statements\<close>

text \<open>The methods of a node that resolve CORS to true, upper-cased, in declaration order:
  what the claims call the CORS-enabled methods.\<close>

definition corsEnabled :: "api_setting \<Rightarrow> x_rise obj \<Rightarrow> string list" where
  "corsEnabled defaultSetting methods =
     map (\<lambda>e. toUpperCase (fst e)) (filter (\<lambda>e. resolveCors defaultSetting (snd e)) methods)"

text \<open>The fragment that the method loop stores for one entry.\<close>

definition methodBinding :: "tree \<Rightarrow> string \<times> x_rise \<Rightarrow> string \<times> 'x fragment" where
  "methodBinding res e =
     (name res @ toUpperCase (fst e),
      ApiMethod (toUpperCase (fst e)) (x_function (snd e)) (resourceIdOf res))"

text \<open>The error with which the remote update fails, if it does: the rejection of
  \<^verbatim>\<open>updateStack\<close>, else that of the wait for \<^verbatim>\<open>stackUpdateComplete\<close>.\<close>

definition remoteError :: "cf_client \<Rightarrow> error option" where
  "remoteError cf = (case cf_updateStack cf of Some err \<Rightarrow> Some err | None \<Rightarrow> cf_waitFor cf)"

text \<open>The session as the update step has it when the remote answer arrives: the template
  is built, the state is \<open>UPDATING\<close> unless another tag was written meanwhile.\<close>

definition submitted :: "('cfg, 'x) modules \<Rightarrow> cf_client \<Rightarrow> ('cfg, 'x) session \<Rightarrow> ('cfg, 'x) session"
where
  "submitted mods cf session =
     session\<lparr>cfTemplate := buildTemplate mods session,
             state := (case cancelling cf of None \<Rightarrow> ''UPDATING'' | Some tag \<Rightarrow> tag)\<rparr>"

text \<open>The three resource names of one uploaded function.\<close>

definition functionNames :: "uploaded_function \<Rightarrow> string set" where
  "functionNames u =
     {functionName u, functionName u @ ''Version'', functionName u @ ''Permission''}"

text \<open>The five recognized trigger kinds; a declaration is recognized when its first key is
  one of them. \<open>warning\<close> is the message logged for a declaration that is not, and
  \<open>withoutUnrecognized\<close> is the manifest with those declarations removed from every trigger
  list.\<close>

definition recognizedKind :: "string \<Rightarrow> bool" where
  "recognizedKind k =
     (k \<in> set [''s3'', ''cloudwatch_events'', ''cloudwatch_logs'', ''stream'', ''sns''])"

definition recognized :: "'cfg obj \<Rightarrow> bool" where
  "recognized decl = (case decl of [] \<Rightarrow> False | (k, c) # others \<Rightarrow> recognizedKind k)"

definition warning :: "'cfg obj \<Rightarrow> string" where
  "warning decl =
     (case decl of
        [] \<Rightarrow> ''Unknown trigger undefined.''
      | (k, c) # others \<Rightarrow> ''Unknown trigger '' @ k @ ''.'')"

definition recognizedOnly :: "'cfg function_setting \<Rightarrow> 'cfg function_setting" where
  "recognizedOnly f = f\<lparr>triggers := map_option (filter recognized) (triggers f)\<rparr>"

definition withoutUnrecognized :: "'cfg manifest \<Rightarrow> 'cfg manifest" where
  "withoutUnrecognized fns = map (\<lambda>e. (fst e, map_option recognizedOnly (snd e))) fns"

text \<open>
  What the route tree builder writes, told from the route map alone. \<open>apiMethodWrites\<close>
  lists the assignments of \<^verbatim>\<open>createAPIMethod\<close> for one node in order, \<open>pathWrites\<close> those
  of one path walked from a node that has no children yet (each token's resource, then the
  methods at an empty token and at the last token), and \<open>routeWrites\<close> those of every path
  of the map from the root. A list of assignments is \<open>consistent\<close> when no name is
  assigned two different fragments. \<open>treeInv\<close> is the invariant of the path tree: a child
  carries the name built from its parent's name and its token, is not the root, and its name
  is among the names \<open>D\<close> already written.
\<close>

definition apiMethodWrites :: "tree \<Rightarrow> api_setting \<Rightarrow> x_rise obj \<Rightarrow> (string \<times> 'x fragment) list" where
  "apiMethodWrites res defaultSetting methods =
     map (methodBinding res) methods
     @ (if corsEnabled defaultSetting methods \<noteq> [] then
          [(name res @ ''OPTIONS'',
            ApiCors (join '','' (corsEnabled defaultSetting methods @ [''OPTIONS'']))
              (resourceIdOf res))]
        else [])"

fun pathWrites ::
  "(string \<Rightarrow> string) \<Rightarrow> api_setting \<Rightarrow> x_rise obj \<Rightarrow> tree \<Rightarrow> string list
     \<Rightarrow> (string \<times> 'x fragment) list"
where
  "pathWrites tc defaultSetting methods parent [] = []"
| "pathWrites tc defaultSetting methods parent (token # rest) =
     (if token = [] then
        apiMethodWrites parent defaultSetting methods
        @ pathWrites tc defaultSetting methods parent rest
      else
        let child = Node (name parent @ tc (stripBraces token)) False []
        in (name child, ApiResource token (resourceIdOf parent))
           # (if rest = [] then apiMethodWrites child defaultSetting methods else [])
           @ pathWrites tc defaultSetting methods child rest)"

definition writesFrom ::
  "(string \<Rightarrow> string) \<Rightarrow> api_setting \<Rightarrow> tree \<Rightarrow> x_rise obj obj \<Rightarrow> (string \<times> 'x fragment) list"
where
  "writesFrom tc defaultSetting pathTree ps =
     concat (map (\<lambda>e. pathWrites tc defaultSetting (snd e) pathTree
                         (split CHR ''/'' (trimPath (fst e)))) ps)"

definition routeWrites ::
  "(string \<Rightarrow> string) \<Rightarrow> api_setting \<Rightarrow> x_rise obj obj \<Rightarrow> (string \<times> 'x fragment) list"
where
  "routeWrites tc defaultSetting ps =
     writesFrom tc defaultSetting (Node ''RiseAPIResource'' True []) ps"

definition defaultSettingOf :: "routes \<Rightarrow> api_setting" where
  "defaultSettingOf routes' =
     (case x_rise_default routes' of Some d \<Rightarrow> d | None \<Rightarrow> \<lparr>default_cors = None\<rparr>)"

definition consistent :: "(string \<times> 'x fragment) list \<Rightarrow> bool" where
  "consistent ws = (\<forall>w\<in>set ws. \<forall>w'\<in>set ws. fst w = fst w' \<longrightarrow> snd w = snd w')"

inductive treeInv :: "(string \<Rightarrow> string) \<Rightarrow> string set \<Rightarrow> tree \<Rightarrow> bool"
  for tc :: "string \<Rightarrow> string" and D :: "string set"
where
  "(\<And>token c. map_of cs token = Some c \<Longrightarrow>
       name c = n @ tc (stripBraces token) \<and> \<not> isRoot c \<and> name c \<in> D
       \<and> treeInv tc D c)
   \<Longrightarrow> treeInv tc D (Node n r cs)"

text \<open>
  The trigger declarations that the loop over the manifest meets, each with the name of its
  function, in order: for every key but \<open>default\<close>, the declarations of the trigger list
  that the loop uses for the entry. \<open>builderFragments\<close> is the call of the builder that
  belongs to the kind of a declaration.
\<close>

definition declarationsWith :: "'cfg obj list option \<Rightarrow> 'cfg manifest \<Rightarrow> (string \<times> 'cfg obj) list" where
  "declarationsWith defaultTriggers fns =
     concat (map (\<lambda>e. if fst e = ''default'' then []
                        else (case triggersFor defaultTriggers (snd e) of
                                None \<Rightarrow> []
                              | Some ts \<Rightarrow> map (\<lambda>d. (fst e, d)) ts)) fns)"

definition declarations :: "'cfg manifest \<Rightarrow> (string \<times> 'cfg obj) list" where
  "declarations fns =
     declarationsWith (case entryOf fns ''default'' of Some d \<Rightarrow> triggers d | None \<Rightarrow> None) fns"

definition builderFragments ::
  "('cfg, 'x) trigger_builders \<Rightarrow> string \<Rightarrow> 'x fragment option \<Rightarrow> string \<times> 'cfg obj \<Rightarrow> 'x resources"
where
  "builderFragments b rg roleResource fd =
     (case snd fd of
        [] \<Rightarrow> Map.empty
      | (k, c) # others \<Rightarrow>
          if k = ''s3'' then getS3Trigger b c (fst fd)
          else if k = ''cloudwatch_events'' then getCloudWatchEventTrigger b c (fst fd)
          else if k = ''cloudwatch_logs'' then getCloudWatchLogsTrigger b c (fst fd) rg
          else if k = ''stream'' then getStreamTrigger b c (fst fd) roleResource
          else if k = ''sns'' then getSNSTrigger b c (fst fd)
          else Map.empty)"

subsection \<open>Concrete inputs\<close>

definition noTriggerBuilders :: "(unit, unit) trigger_builders" where
  "noTriggerBuilders =
     \<lparr>getS3Trigger = (\<lambda>trigger funcName. Map.empty),
      getCloudWatchEventTrigger = (\<lambda>trigger funcName. Map.empty),
      getCloudWatchLogsTrigger = (\<lambda>trigger funcName region. Map.empty),
      getStreamTrigger = (\<lambda>trigger funcName roleResource. Map.empty),
      getSNSTrigger = (\<lambda>trigger funcName. Map.empty)\<rparr>"

definition exampleModules :: "(unit, unit) modules" where
  "exampleModules =
     \<lparr>titlecase = (\<lambda>s. case s of [] \<Rightarrow> [] | c # cs \<Rightarrow> toUpperCaseChar c # cs),
      getBaseTemplate = (\<lambda>stackName. Map.empty),
      triggerBuilders = noTriggerBuilders\<rparr>"

definition exampleSession :: "(unit, unit) session" where
  "exampleSession =
     \<lparr>stackName = ''my-stack'', bucketName = ''my-bucket'', region = ''us-west-2'',
      version = ''v1'',
      functions = [(''appIndex'', Some \<lparr>timeout = Some 5, memory = None, triggers = None,
                                        bare = False\<rparr>)],
      compressedFunctions = [\<lparr>functionName = ''appIndex'', uploadPath = ''appIndex-v1.zip''\<rparr>],
      routes = \<lparr>paths = [(''/'', [(''get'', \<lparr>x_function = ''appIndex'', x_cors = None\<rparr>)])],
                x_rise_default = None\<rparr>,
      state = ''UPLOADED'',
      cfTemplate = Map.empty\<rparr>"

definition notReadyError :: error where
  "notReadyError =
     \<lparr>code = ''ResourceNotReady'',
      message = Some ''Resource is not in the state stackUpdateComplete''\<rparr>"

definition noUpdatesError :: error where
  "noUpdatesError =
     \<lparr>code = ''ValidationError'', message = Some ''No updates are to be performed.''\<rparr>"

definition pingSession :: "(unit, unit) session" where
  "pingSession =
     exampleSession\<lparr>functions :=
       [(''appIndex'', Some \<lparr>timeout = Some 5, memory = None, triggers = None, bare = False\<rparr>),
        (''appCreate'', None),
        (''appBare'', Some \<lparr>timeout = None, memory = None, triggers = None, bare = True\<rparr>)]\<rparr>"

definition deployedFunctions :: "string list" where
  "deployedFunctions =
     [''my-stack-appIndex-1A2B'', ''my-stack-appCreate-3C4D'', ''my-stack-appBare-5E6F'',
      ''other-stack-appIndex-7G8H'']"

definition healthyLambda :: lambda_client where
  "healthyLambda =
     \<lparr>listFunctions = Inr deployedFunctions,
      invoke = (\<lambda>f payload. if payload = ''{\"riseTest\":1}'' then Inr (200, ''{\"test\":\"ok\"}'')
                              else Inr (200, ''null''))\<rparr>"

definition brokenLambda :: lambda_client where
  "brokenLambda =
     \<lparr>listFunctions = Inr deployedFunctions,
      invoke = (\<lambda>f payload. if f = ''my-stack-appCreate-3C4D'' then Inr (200, ''{\"test\":\"no\"}'')
                              else Inr (200, ''{\"test\":\"ok\"}''))\<rparr>"

definition usersGet :: "string \<times> x_rise obj" where
  "usersGet = (''/users'', [(''get'', \<lparr>x_function = ''usersIndex'', x_cors = Some True\<rparr>)])"

definition usersPost :: "string \<times> x_rise obj" where
  "usersPost = (''/users/'', [(''post'', \<lparr>x_function = ''usersCreate'', x_cors = Some True\<rparr>)])"

definition rootGet :: "string \<times> x_rise obj" where
  "rootGet = (''/'', [(''get'', \<lparr>x_function = ''appIndex'', x_cors = None\<rparr>)])"

definition userShow :: "string \<times> x_rise obj" where
  "userShow = (''/users/{id}'', [(''get'', \<lparr>x_function = ''usersShow'', x_cors = Some True\<rparr>)])"

definition exampleBuilders :: "(string, string) trigger_builders" where
  "exampleBuilders =
     \<lparr>getS3Trigger = (\<lambda>trigger funcName. [funcName @ ''S3'' \<mapsto> External trigger]),
      getCloudWatchEventTrigger =
        (\<lambda>trigger funcName. [funcName @ ''Event'' \<mapsto> External trigger]),
      getCloudWatchLogsTrigger =
        (\<lambda>trigger funcName region'. [funcName @ ''Logs'' \<mapsto> External (region' @ trigger)]),
      getStreamTrigger =
        (\<lambda>trigger funcName roleResource. [funcName @ ''Stream'' \<mapsto> External trigger]),
      getSNSTrigger = (\<lambda>trigger funcName. [funcName @ ''SNS'' \<mapsto> External trigger])\<rparr>"

definition exampleManifest :: "string manifest" where
  "exampleManifest =
     [(''default'', Some \<lparr>timeout = Some 3, memory = None,
                           triggers = Some [[(''cloudwatch_events'', ''daily'')]], bare = False\<rparr>),
      (''appIndex'', Some \<lparr>timeout = None, memory = None,
                            triggers = Some [[(''s3'', ''uploads'')], [(''sqs'', ''jobs'')]],
                            bare = False\<rparr>),
      (''appCreate'', None),
      (''appShow'', Some \<lparr>timeout = None, memory = None,
                           triggers = Some [[(''kinesis'', ''clicks'')], [(''sns'', ''topic'')]],
                           bare = False\<rparr>)]"

section \<open>The method bindings of one node\<close>

lemma createAPIMethod_loop_snd:
  "snd (createAPIMethod_loop res ds ms (r, c)) = c @ corsEnabled ds ms"
  by (induction ms arbitrary: r c) (auto simp: corsEnabled_def Let_def)

lemma map_upd_add: "(r(k \<mapsto> v)) ++ m = r ++ ([k \<mapsto> v] ++ m)"
  by (rule ext) (simp add: map_add_def split: option.split)

lemma createAPIMethod_loop_fst:
  "fst (createAPIMethod_loop res ds ms (r, c)) = r ++ map_of (rev (map (methodBinding res) ms))"
proof (induction ms arbitrary: r c)
  case Nil
  show ?case by simp
next
  case (Cons e ms)
  obtain m meth where e: "e = (m, meth)" by (cases e)
  let ?k = "name res @ toUpperCase m"
  let ?v = "ApiMethod (toUpperCase m) (x_function meth) (resourceIdOf res) :: 'a fragment"
  let ?c = "if resolveCors ds meth then c @ [toUpperCase m] else c"
  have "fst (createAPIMethod_loop res ds (e # ms) (r, c))
        = fst (createAPIMethod_loop res ds ms (r(?k \<mapsto> ?v), ?c))"
    by (simp add: e Let_def)
  also have "\<dots> = (r(?k \<mapsto> ?v)) ++ map_of (rev (map (methodBinding res) ms))"
    by (rule Cons.IH)
  also have "\<dots> = r ++ ([?k \<mapsto> ?v] ++ map_of (rev (map (methodBinding res) ms)))"
    by (rule map_upd_add)
  also have "[?k \<mapsto> ?v] ++ map_of (rev (map (methodBinding res) ms))
             = map_of (rev (map (methodBinding res) (e # ms)))"
    by (simp add: e methodBinding_def)
  finally show ?case .
qed

lemma createAPIMethod_eq:
  "(createAPIMethod res ds ms :: 'x resources) =
     (if corsEnabled ds ms \<noteq> [] then
        (map_of (rev (map (methodBinding res) ms)))
          (name res @ ''OPTIONS'' \<mapsto>
             ApiCors (join '','' (corsEnabled ds ms @ [''OPTIONS''])) (resourceIdOf res))
      else map_of (rev (map (methodBinding res) ms)))"
proof -
  have f: "fst (createAPIMethod_loop res ds ms (Map.empty :: 'x resources, []))
           = map_of (rev (map (methodBinding res) ms))"
    by (simp add: createAPIMethod_loop_fst)
  have s: "snd (createAPIMethod_loop res ds ms (Map.empty :: 'x resources, []))
           = corsEnabled ds ms"
    by (simp add: createAPIMethod_loop_snd)
  show ?thesis
    using f s
    by (cases "createAPIMethod_loop res ds ms (Map.empty :: 'x resources, [])")
       (simp add: createAPIMethod_def)
qed

lemma methodBinding_lookup:
  "map_of (rev (map (methodBinding res) ms)) k = Some f \<Longrightarrow>
   \<exists>e\<in>set ms. k = name res @ toUpperCase (fst e) \<and>
      f = ApiMethod (toUpperCase (fst e)) (x_function (snd e)) (resourceIdOf res)"
  by (auto dest!: map_of_SomeD simp: methodBinding_def)

lemma corsEnabled_nonempty:
  "corsEnabled ds ms \<noteq> [] \<longleftrightarrow> (\<exists>e\<in>set ms. resolveCors ds (snd e))"
  by (auto simp: corsEnabled_def filter_empty_conv)

text \<open>
  Claim C7. For the methods \<open>{GET: cors = true, POST: cors = false}\<close> and no default CORS
  setting, the fragments of the node hold exactly one preflight fragment, under the node's
  name followed by \<open>OPTIONS\<close>, and its method list is \<open>GET,OPTIONS\<close>. In general a preflight
  fragment is emitted if and only if some method of the node resolves CORS to true; it is
  the only one, and it lists the CORS-enabled methods in declaration order, then \<open>OPTIONS\<close>.
\<close>

theorem createAPIMethod_preflight:
  "((\<exists>k cm r. (createAPIMethod res ds ms :: 'x resources) k = Some (ApiCors cm r))
      \<longleftrightarrow> (\<exists>e\<in>set ms. resolveCors ds (snd e)))
   \<and> (\<forall>k cm r. (createAPIMethod res ds ms :: 'x resources) k = Some (ApiCors cm r) \<longrightarrow>
         k = name res @ ''OPTIONS'' \<and>
         cm = join '','' (corsEnabled ds ms @ [''OPTIONS'']) \<and> r = resourceIdOf res)
   \<and> (\<forall>k cm r. ((createAPIMethod res \<lparr>default_cors = None\<rparr>
           [(''GET'', \<lparr>x_function = f, x_cors = Some True\<rparr>),
            (''POST'', \<lparr>x_function = g, x_cors = Some False\<rparr>)] :: 'x resources) k
          = Some (ApiCors cm r))
         \<longleftrightarrow> (k = name res @ ''OPTIONS'' \<and> cm = ''GET,OPTIONS'' \<and> r = resourceIdOf res))"
proof (intro conjI allI)
  show "(\<exists>k cm r. (createAPIMethod res ds ms :: 'x resources) k = Some (ApiCors cm r))
      \<longleftrightarrow> (\<exists>e\<in>set ms. resolveCors ds (snd e))"
    unfolding corsEnabled_nonempty [symmetric]
    by (auto simp: createAPIMethod_eq dest: methodBinding_lookup split: if_splits)
next
  fix k cm r
  show "(createAPIMethod res ds ms :: 'x resources) k = Some (ApiCors cm r) \<longrightarrow>
         k = name res @ ''OPTIONS'' \<and>
         cm = join '','' (corsEnabled ds ms @ [''OPTIONS'']) \<and> r = resourceIdOf res"
    by (auto simp: createAPIMethod_eq dest: methodBinding_lookup split: if_splits)
next
  fix k cm r
  show "((createAPIMethod res \<lparr>default_cors = None\<rparr>
           [(''GET'', \<lparr>x_function = f, x_cors = Some True\<rparr>),
            (''POST'', \<lparr>x_function = g, x_cors = Some False\<rparr>)] :: 'x resources) k
          = Some (ApiCors cm r))
         \<longleftrightarrow> (k = name res @ ''OPTIONS'' \<and> cm = ''GET,OPTIONS'' \<and> r = resourceIdOf res)"
    by (auto simp: createAPIMethod_eq corsEnabled_def resolveCors_def methodBinding_def
          toUpperCase_def toUpperCaseChar_def split: if_splits)
qed

theorem createAPIMethod_preflight_witness:
  "(\<exists>e\<in>set [(''GET'', \<lparr>x_function = ''appIndex'', x_cors = Some True\<rparr>),
               (''POST'', \<lparr>x_function = ''appCreate'', x_cors = Some False\<rparr>)].
       resolveCors \<lparr>default_cors = None\<rparr> (snd e))
   \<and> (\<exists>k. (createAPIMethod (Node ''RiseAPIResourceUsers'' False []) \<lparr>default_cors = None\<rparr>
         [(''GET'', \<lparr>x_function = ''appIndex'', x_cors = Some True\<rparr>),
          (''POST'', \<lparr>x_function = ''appCreate'', x_cors = Some False\<rparr>)] :: unit resources) k
       = Some (ApiCors ''GET,OPTIONS'' (Ref ''RiseAPIResourceUsers'')))"
proof -
  let ?ms = "[(''GET'', \<lparr>x_function = ''appIndex'', x_cors = Some True\<rparr>),
              (''POST'', \<lparr>x_function = ''appCreate'', x_cors = Some False\<rparr>)]"
  let ?ds = "\<lparr>default_cors = None\<rparr>"
  let ?res = "Node ''RiseAPIResourceUsers'' False []"
  note inst = createAPIMethod_preflight [of ?res ?ds ?ms, where ?'x = unit]
  have h: "\<exists>e\<in>set ?ms. resolveCors ?ds (snd e)"
    by (simp add: resolveCors_def)
  with inst obtain k cm r
    where k: "(createAPIMethod ?res ?ds ?ms :: unit resources) k = Some (ApiCors cm r)"
    by blast
  with inst have "cm = join '','' (corsEnabled ?ds ?ms @ [''OPTIONS'']) \<and> r = resourceIdOf ?res"
    by blast
  then have "cm = ''GET,OPTIONS'' \<and> r = Ref ''RiseAPIResourceUsers''"
    by (simp add: corsEnabled_def resolveCors_def resourceIdOf_def toUpperCase_def
          toUpperCaseChar_def)
  with k h show ?thesis by blast
qed

text \<open>
  Claim C10. When a node declares a method whose upper-cased name is \<open>OPTIONS\<close> and some
  method of the node resolves CORS to true, the method loop stores the declared binding
  under the node's name followed by \<open>OPTIONS\<close>, the preflight fragment is stored under the
  same name afterwards, and the returned fragments hold the preflight fragment there: the
  declared binding is gone, and every other name keeps what the loop stored.
\<close>

theorem createAPIMethod_declared_options_replaced:
  assumes "e \<in> set ms" and "toUpperCase (fst e) = ''OPTIONS''"
    and "\<exists>e'\<in>set ms. resolveCors ds (snd e')"
  shows "(\<exists>fn. fst (createAPIMethod_loop res ds ms (Map.empty :: 'x resources, []))
                  (name res @ ''OPTIONS'') = Some (ApiMethod ''OPTIONS'' fn (resourceIdOf res)))
       \<and> (createAPIMethod res ds ms :: 'x resources) (name res @ ''OPTIONS'')
           = Some (ApiCors (join '','' (corsEnabled ds ms @ [''OPTIONS''])) (resourceIdOf res))
       \<and> (\<forall>k. k \<noteq> name res @ ''OPTIONS'' \<longrightarrow>
             (createAPIMethod res ds ms :: 'x resources) k
             = fst (createAPIMethod_loop res ds ms (Map.empty :: 'x resources, [])) k)"
proof -
  let ?r = "map_of (rev (map (methodBinding res) ms)) :: 'x resources"
  have f: "fst (createAPIMethod_loop res ds ms (Map.empty :: 'x resources, [])) = ?r"
    by (simp add: createAPIMethod_loop_fst)
  have "name res @ ''OPTIONS'' \<in> fst ` set (rev (map (methodBinding res) ms) :: (string \<times> 'x fragment) list)"
    using assms(1,2) by (force simp: methodBinding_def)
  then obtain v where v: "?r (name res @ ''OPTIONS'') = Some v"
    by (metis map_of_eq_None_iff not_Some_eq)
  from methodBinding_lookup [OF v] have "\<exists>fn. v = ApiMethod ''OPTIONS'' fn (resourceIdOf res)"
    by auto
  with v f have 1: "\<exists>fn. fst (createAPIMethod_loop res ds ms (Map.empty :: 'x resources, []))
                  (name res @ ''OPTIONS'') = Some (ApiMethod ''OPTIONS'' fn (resourceIdOf res))"
    by auto
  have ne: "corsEnabled ds ms \<noteq> []"
    using assms(3) by (simp add: corsEnabled_nonempty)
  show ?thesis using 1 ne by (simp add: f createAPIMethod_eq)
qed

theorem createAPIMethod_declared_options_replaced_witness:
  "(''options'', \<lparr>x_function = ''appOptions'', x_cors = None\<rparr>)
      \<in> set [(''options'', \<lparr>x_function = ''appOptions'', x_cors = None\<rparr>),
              (''get'', \<lparr>x_function = ''appIndex'', x_cors = Some True\<rparr>)]
   \<and> toUpperCase ''options'' = ''OPTIONS''
   \<and> resolveCors \<lparr>default_cors = None\<rparr> \<lparr>x_function = ''appIndex'', x_cors = Some True\<rparr>
   \<and> fst (createAPIMethod_loop (Node ''RiseAPIResourceUsers'' False []) \<lparr>default_cors = None\<rparr>
         [(''options'', \<lparr>x_function = ''appOptions'', x_cors = None\<rparr>),
          (''get'', \<lparr>x_function = ''appIndex'', x_cors = Some True\<rparr>)]
         (Map.empty :: unit resources, [])) ''RiseAPIResourceUsersOPTIONS''
       = Some (ApiMethod ''OPTIONS'' ''appOptions'' (Ref ''RiseAPIResourceUsers''))
   \<and> (createAPIMethod (Node ''RiseAPIResourceUsers'' False []) \<lparr>default_cors = None\<rparr>
         [(''options'', \<lparr>x_function = ''appOptions'', x_cors = None\<rparr>),
          (''get'', \<lparr>x_function = ''appIndex'', x_cors = Some True\<rparr>)] :: unit resources)
         ''RiseAPIResourceUsersOPTIONS''
       = Some (ApiCors ''GET,OPTIONS'' (Ref ''RiseAPIResourceUsers''))"
proof -
  let ?o = "(''options'', \<lparr>x_function = ''appOptions'', x_cors = None\<rparr>)"
  let ?g = "(''get'', \<lparr>x_function = ''appIndex'', x_cors = Some True\<rparr>)"
  let ?ds = "\<lparr>default_cors = None\<rparr>"
  let ?res = "Node ''RiseAPIResourceUsers'' False []"
  have a: "?o \<in> set [?o, ?g]" by simp
  have b: "toUpperCase (fst ?o) = ''OPTIONS''"
    by (simp add: toUpperCase_def toUpperCaseChar_def)
  have c: "\<exists>e'\<in>set [?o, ?g]. resolveCors ?ds (snd e')"
    by (simp add: resolveCors_def)
  have d: "corsEnabled ?ds [?o, ?g] = [''GET'']"
    by (simp add: corsEnabled_def resolveCors_def toUpperCase_def toUpperCaseChar_def)
  have l: "fst (createAPIMethod_loop ?res ?ds [?o, ?g] (Map.empty :: unit resources, []))
             ''RiseAPIResourceUsersOPTIONS''
           = Some (ApiMethod ''OPTIONS'' ''appOptions'' (Ref ''RiseAPIResourceUsers''))"
    by (simp add: toUpperCase_def toUpperCaseChar_def resolveCors_def resourceIdOf_def)
  from createAPIMethod_declared_options_replaced [OF a b c, of ?res, where ?'x = unit] b c d l
  show ?thesis
    by (simp add: resourceIdOf_def resolveCors_def)
qed

section \<open>The route tree\<close>

lemma treeInv_mono: "treeInv tc D t \<Longrightarrow> D \<subseteq> D' \<Longrightarrow> treeInv tc D' t"
  by (induction rule: treeInv.induct) (auto intro!: treeInv.intros)

lemma treeInv_child:
  "treeInv tc D t \<Longrightarrow> map_of (children t) token = Some c \<Longrightarrow>
   name c = name t @ tc (stripBraces token) \<and> \<not> isRoot c \<and> name c \<in> D \<and> treeInv tc D c"
  by (erule treeInv.cases) fastforce

lemma treeInv_leaf: "treeInv tc D (Node n r [])"
  by (rule treeInv.intros) simp

lemma createAPIMethod_writes:
  "(createAPIMethod res ds ms :: 'x resources) = map_of (rev (apiMethodWrites res ds ms))"
  by (simp add: createAPIMethod_eq apiMethodWrites_def)

lemma createAPIMethod_dom:
  "dom (createAPIMethod res ds ms :: 'x resources)
   = fst ` set (apiMethodWrites res ds ms :: (string \<times> 'x fragment) list)"
  by (simp add: createAPIMethod_writes dom_map_of_conv_image_fst)

lemma createAPIMethod_graph:
  "(createAPIMethod res ds ms :: 'x resources) k = Some f \<Longrightarrow> (k, f) \<in> set (apiMethodWrites res ds ms)"
  by (auto simp: createAPIMethod_writes dest: map_of_SomeD)

lemma apiMethodWrites_cong:
  "name p = name p' \<Longrightarrow> isRoot p = isRoot p' \<Longrightarrow>
   apiMethodWrites p ds ms = apiMethodWrites p' ds ms"
  by (simp add: apiMethodWrites_def methodBinding_def resourceIdOf_def)

lemma pathWrites_cong:
  "name p = name p' \<Longrightarrow> isRoot p = isRoot p' \<Longrightarrow>
   pathWrites tc ds ms p ts = pathWrites tc ds ms p' ts"
proof (induction ts arbitrary: p p')
  case Nil
  show ?case by simp
next
  case (Cons token rest)
  from Cons.prems have a: "apiMethodWrites p ds ms = (apiMethodWrites p' ds ms :: (string \<times> 'a fragment) list)"
    by (rule apiMethodWrites_cong)
  from Cons.prems have r: "resourceIdOf p = resourceIdOf p'"
    by (simp add: resourceIdOf_def)
  from Cons.prems have i: "pathWrites tc ds ms p rest = (pathWrites tc ds ms p' rest :: (string \<times> 'a fragment) list)"
    by (rule Cons.IH)
  show ?case using Cons.prems a r i by (simp add: Let_def)
qed

lemma walk_spec:
  fixes result :: "'x resources"
  assumes "treeInv tc (dom result) parent"
  shows "name (fst (walk tc ds ms parent tokens result)) = name parent
       \<and> isRoot (fst (walk tc ds ms parent tokens result)) = isRoot parent
       \<and> treeInv tc (dom (snd (walk tc ds ms parent tokens result)))
           (fst (walk tc ds ms parent tokens result))
       \<and> dom (snd (walk tc ds ms parent tokens result))
         = dom result \<union> fst ` set (pathWrites tc ds ms parent tokens :: (string \<times> 'x fragment) list)
       \<and> (\<forall>k f. snd (walk tc ds ms parent tokens result) k = Some f \<longrightarrow>
              result k = Some f \<or> (k, f) \<in> set (pathWrites tc ds ms parent tokens))"
  using assms
proof (induction tokens arbitrary: parent result)
  case Nil
  then show ?case by simp
next
  case (Cons token rest)
  show ?case
  proof (cases "token = []")
    case True
    let ?r1 = "result ++ createAPIMethod parent ds ms"
    have inv1: "treeInv tc (dom ?r1) parent"
      using Cons.prems by (rule treeInv_mono) auto
    note IH = Cons.IH [OF inv1]
    have w: "walk tc ds ms parent (token # rest) result = walk tc ds ms parent rest ?r1"
      using True by simp
    have pw: "(pathWrites tc ds ms parent (token # rest) :: (string \<times> 'x fragment) list)
              = apiMethodWrites parent ds ms @ pathWrites tc ds ms parent rest"
      using True by simp
    have d1: "dom ?r1 = dom result \<union> fst ` set (apiMethodWrites parent ds ms :: (string \<times> 'x fragment) list)"
      by (auto simp: createAPIMethod_dom)
    have g1: "\<And>k f. ?r1 k = Some f \<Longrightarrow>
                result k = Some f \<or> (k, f) \<in> set (apiMethodWrites parent ds ms)"
      by (auto simp: map_add_Some_iff dest: createAPIMethod_graph)
    have g: "\<And>k f. snd (walk tc ds ms parent rest ?r1) k = Some f \<Longrightarrow>
                result k = Some f \<or> (k, f) \<in> set (pathWrites tc ds ms parent (token # rest))"
    proof -
      fix k f
      assume "snd (walk tc ds ms parent rest ?r1) k = Some f"
      with IH consider (a) "?r1 k = Some f" | (b) "(k, f) \<in> set (pathWrites tc ds ms parent rest)"
        by blast
      then show "result k = Some f \<or> (k, f) \<in> set (pathWrites tc ds ms parent (token # rest))"
      proof cases
        case a
        from g1 [OF a] show ?thesis unfolding pw by auto
      next
        case b
        then show ?thesis unfolding pw by auto
      qed
    qed
    have d: "dom (snd (walk tc ds ms parent rest ?r1))
             = dom result
               \<union> fst ` set (pathWrites tc ds ms parent (token # rest) :: (string \<times> 'x fragment) list)"
      unfolding pw using IH d1 by auto
    from IH have n: "name (fst (walk tc ds ms parent rest ?r1)) = name parent"
      and r: "isRoot (fst (walk tc ds ms parent rest ?r1)) = isRoot parent"
      and i: "treeInv tc (dom (snd (walk tc ds ms parent rest ?r1)))
                (fst (walk tc ds ms parent rest ?r1))"
      by blast+
    show ?thesis
      unfolding w using n r i d g by blast
  next
    case False
    define nm where "nm = name parent @ tc (stripBraces token)"
    define child0 where "child0 = (case map_of (children parent) token of
                                     None \<Rightarrow> Node nm False [] | Some c \<Rightarrow> c)"
    define result1 :: "'x resources" where
      "result1 = (case map_of (children parent) token of
                    None \<Rightarrow> result ++ createAPIResource parent nm token | Some c \<Rightarrow> result)"
    define result2 :: "'x resources" where
      "result2 = (if rest = [] then result1 ++ createAPIMethod child0 ds ms else result1)"
    define child' where "child' = fst (walk tc ds ms child0 rest result2)"
    define result3 where "result3 = snd (walk tc ds ms child0 rest result2)"
    have w: "walk tc ds ms parent (token # rest) result
             = (Node (name parent) (isRoot parent) (AList.update token child' (children parent)),
                result3)"
      using False
      by (simp add: nm_def child0_def result1_def result2_def child'_def result3_def Let_def
            split: option.split prod.split)
    have c0: "name child0 = nm \<and> \<not> isRoot child0 \<and> treeInv tc (dom result1) child0"
    proof (cases "map_of (children parent) token")
      case None
      then show ?thesis by (simp add: child0_def treeInv_leaf)
    next
      case (Some c)
      with treeInv_child [OF Cons.prems Some] show ?thesis
        by (simp add: child0_def result1_def nm_def)
    qed
    have d1: "dom result1 = dom result \<union> {nm}"
    proof (cases "map_of (children parent) token")
      case None
      then show ?thesis by (simp add: result1_def createAPIResource_def)
    next
      case (Some c)
      with treeInv_child [OF Cons.prems Some] show ?thesis
        by (auto simp: result1_def nm_def)
    qed
    have g1: "\<And>k f. result1 k = Some f \<Longrightarrow>
                result k = Some f \<or> (k, f) = (nm, ApiResource token (resourceIdOf parent))"
      by (auto simp: result1_def createAPIResource_def resourceIdOf_def map_add_Some_iff
               split: option.splits if_splits)
    have d2: "dom result2 = dom result1
                \<union> fst ` set ((if rest = [] then apiMethodWrites child0 ds ms else [])
                               :: (string \<times> 'x fragment) list)"
      by (auto simp: result2_def createAPIMethod_dom)
    have g2: "\<And>k f. result2 k = Some f \<Longrightarrow>
                result1 k = Some f
                \<or> (k, f) \<in> set (if rest = [] then apiMethodWrites child0 ds ms else [])"
      by (auto simp: result2_def map_add_Some_iff dest: createAPIMethod_graph split: if_splits)
    have inv2: "treeInv tc (dom result2) child0"
      using c0 d2 by (auto intro: treeInv_mono)
    note IH = Cons.IH [OF inv2, folded child'_def result3_def]
    let ?leaf = "Node nm False []"
    have cg: "name child0 = name ?leaf" "isRoot child0 = isRoot ?leaf"
      using c0 by simp_all
    have pw: "(pathWrites tc ds ms parent (token # rest) :: (string \<times> 'x fragment) list)
              = (nm, ApiResource token (resourceIdOf parent))
                # (if rest = [] then apiMethodWrites child0 ds ms else [])
                @ pathWrites tc ds ms child0 rest"
      using False apiMethodWrites_cong [OF cg, of ds ms, where ?'a = 'x]
            pathWrites_cong [OF cg, of tc ds ms rest, where ?'a = 'x]
      by (simp add: Let_def nm_def)
    from IH have n3: "name child' = name child0"
      and r3: "isRoot child' = isRoot child0"
      and i3: "treeInv tc (dom result3) child'"
      by blast+
    have nm3: "nm \<in> dom result3"
      using IH d2 d1 by auto
    have sub: "dom result \<subseteq> dom result3"
      using IH d2 d1 by auto
    have inv': "treeInv tc (dom result3)
                  (Node (name parent) (isRoot parent) (AList.update token child' (children parent)))"
    proof (rule treeInv.intros)
      fix t c
      assume l: "map_of (AList.update token child' (children parent)) t = Some c"
      show "name c = name parent @ tc (stripBraces t) \<and> \<not> isRoot c \<and> name c \<in> dom result3
            \<and> treeInv tc (dom result3) c"
      proof (cases "t = token")
        case True
        with l have "c = child'" by (simp add: update_conv')
        then show ?thesis using n3 r3 i3 c0 nm3 True by (simp add: nm_def)
      next
        case False
        with l have "map_of (children parent) t = Some c" by (simp add: update_conv')
        from treeInv_child [OF Cons.prems this] sub show ?thesis
          by (auto intro: treeInv_mono)
      qed
    qed
    have d3: "dom result3 = dom result
                \<union> fst ` set (pathWrites tc ds ms parent (token # rest) :: (string \<times> 'x fragment) list)"
      unfolding pw using IH d2 d1 by auto
    have g3: "\<And>k f. result3 k = Some f \<Longrightarrow>
                 result k = Some f \<or> (k, f) \<in> set (pathWrites tc ds ms parent (token # rest))"
    proof -
      fix k f
      assume "result3 k = Some f"
      with IH consider (a) "result2 k = Some f"
        | (b) "(k, f) \<in> set (pathWrites tc ds ms child0 rest)"
        by blast
      then show "result k = Some f \<or> (k, f) \<in> set (pathWrites tc ds ms parent (token # rest))"
      proof cases
        case a
        from g2 [OF a] consider (c) "result1 k = Some f"
          | (d) "(k, f) \<in> set (if rest = [] then apiMethodWrites child0 ds ms else [])"
          by blast
        then show ?thesis
        proof cases
          case c
          from g1 [OF c] show ?thesis unfolding pw by auto
        next
          case d
          then show ?thesis unfolding pw by auto
        qed
      next
        case b
        then show ?thesis unfolding pw by auto
      qed
    qed
    show ?thesis
      unfolding w fst_conv snd_conv tree.sel using inv' d3 g3 by blast
  qed
qed

lemma getAPIResources_loop_spec:
  fixes result :: "'x resources"
  assumes "treeInv tc (dom result) pathTree"
  shows "dom (snd (getAPIResources_loop tc ds ps (pathTree, result)))
         = dom result \<union> fst ` set (writesFrom tc ds pathTree ps :: (string \<times> 'x fragment) list)
       \<and> (\<forall>k f. snd (getAPIResources_loop tc ds ps (pathTree, result)) k = Some f \<longrightarrow>
              result k = Some f \<or> (k, f) \<in> set (writesFrom tc ds pathTree ps))"
  using assms
proof (induction ps arbitrary: pathTree result)
  case Nil
  show ?case by (simp add: writesFrom_def)
next
  case (Cons e ps)
  obtain p ms where e: "e = (p, ms)" by (cases e)
  let ?ts = "split CHR ''/'' (trimPath p)"
  define tree' where "tree' = fst (walk tc ds ms pathTree ?ts result)"
  define result' where "result' = snd (walk tc ds ms pathTree ?ts result)"
  note W = walk_spec [OF Cons.prems, of ds ms ?ts, folded tree'_def result'_def]
  from W have n: "name tree' = name pathTree" and r: "isRoot tree' = isRoot pathTree"
    and i: "treeInv tc (dom result') tree'"
    and d: "dom result' = dom result
              \<union> fst ` set (pathWrites tc ds ms pathTree ?ts :: (string \<times> 'x fragment) list)"
    and g: "\<And>k f. result' k = Some f \<Longrightarrow>
              result k = Some f \<or> (k, f) \<in> set (pathWrites tc ds ms pathTree ?ts)"
    by blast+
  note IH = Cons.IH [OF i]
  have l: "getAPIResources_loop tc ds (e # ps) (pathTree, result)
           = getAPIResources_loop tc ds ps (tree', result')"
    by (simp add: e tree'_def result'_def)
  have c: "(writesFrom tc ds tree' ps :: (string \<times> 'x fragment) list) = writesFrom tc ds pathTree ps"
    unfolding writesFrom_def using pathWrites_cong [OF n r, of tc ds, where ?'a = 'x] by simp
  have ww: "(writesFrom tc ds pathTree (e # ps) :: (string \<times> 'x fragment) list)
            = pathWrites tc ds ms pathTree ?ts @ writesFrom tc ds pathTree ps"
    by (simp add: writesFrom_def e)
  have d': "dom (snd (getAPIResources_loop tc ds ps (tree', result')))
            = dom result \<union> fst ` set (writesFrom tc ds pathTree (e # ps) :: (string \<times> 'x fragment) list)"
    unfolding ww using IH d c by auto
  have g': "\<And>k f. snd (getAPIResources_loop tc ds ps (tree', result')) k = Some f \<Longrightarrow>
              result k = Some f \<or> (k, f) \<in> set (writesFrom tc ds pathTree (e # ps))"
  proof -
    fix k f
    assume "snd (getAPIResources_loop tc ds ps (tree', result')) k = Some f"
    with IH c consider (a) "result' k = Some f" | (b) "(k, f) \<in> set (writesFrom tc ds pathTree ps)"
      by auto
    then show "result k = Some f \<or> (k, f) \<in> set (writesFrom tc ds pathTree (e # ps))"
    proof cases
      case a
      from g [OF a] show ?thesis unfolding ww by auto
    next
      case b
      then show ?thesis unfolding ww by auto
    qed
  qed
  show ?case unfolding l using d' g' by blast
qed

lemma getAPIResources_dom:
  "dom (getAPIResources tc r :: 'x resources)
   = fst ` set (routeWrites tc (defaultSettingOf r) (paths r) :: (string \<times> 'x fragment) list)"
proof -
  have i: "treeInv tc (dom (Map.empty :: 'x resources)) (Node ''RiseAPIResource'' True [])"
    by (rule treeInv_leaf)
  from getAPIResources_loop_spec [OF i, of "defaultSettingOf r" "paths r"]
  show ?thesis
    by (simp add: getAPIResources_def routeWrites_def defaultSettingOf_def)
qed

lemma getAPIResources_graph:
  assumes "(getAPIResources tc r :: 'x resources) k = Some f"
  shows "(k, f) \<in> set (routeWrites tc (defaultSettingOf r) (paths r))"
proof -
  have i: "treeInv tc (dom (Map.empty :: 'x resources)) (Node ''RiseAPIResource'' True [])"
    by (rule treeInv_leaf)
  from getAPIResources_loop_spec [OF i, of "defaultSettingOf r" "paths r"] assms
  show ?thesis
    by (simp add: getAPIResources_def routeWrites_def defaultSettingOf_def)
qed

lemma routeWrites_set:
  "set (routeWrites tc ds ps)
   = (\<Union>e\<in>set ps. set (pathWrites tc ds (snd e) (Node ''RiseAPIResource'' True [])
                          (split CHR ''/'' (trimPath (fst e)))))"
  by (simp add: routeWrites_def writesFrom_def)

text \<open>
  Claim C6, as amended. For every route map and every two orderings of its path entries,
  route-tree synthesis produces the same set of resource names. It produces the same
  fragments altogether, the preflight method list of every node included, when no resource
  name is assigned two different fragments by the entries of the map. The root path \<open>/\<close>
  gives one empty token, at which the methods are attached to the node the walk stands on,
  whatever the tree and the result hold at that moment.
\<close>

theorem getAPIResources_any_order:
  assumes "mset ps = mset qs"
  shows "dom (getAPIResources tc (r\<lparr>paths := ps\<rparr>) :: 'x resources)
         = dom (getAPIResources tc (r\<lparr>paths := qs\<rparr>) :: 'x resources)
       \<and> (consistent (routeWrites tc (defaultSettingOf r) ps :: (string \<times> 'x fragment) list)
            \<longrightarrow> (getAPIResources tc (r\<lparr>paths := ps\<rparr>) :: 'x resources)
                = getAPIResources tc (r\<lparr>paths := qs\<rparr>))
       \<and> walk tc ds methods parent (split CHR ''/'' (trimPath ''/'')) (result :: 'x resources)
         = (parent, result ++ createAPIMethod parent ds methods)"
proof (intro conjI impI)
  from assms have s: "set ps = set qs" by (rule mset_eq_setD)
  have w: "set (routeWrites tc (defaultSettingOf r) ps :: (string \<times> 'x fragment) list)
           = set (routeWrites tc (defaultSettingOf r) qs)"
    by (simp add: routeWrites_set s)
  have dp: "defaultSettingOf (r\<lparr>paths := ps\<rparr>) = defaultSettingOf r"
    and dq: "defaultSettingOf (r\<lparr>paths := qs\<rparr>) = defaultSettingOf r"
    by (simp_all add: defaultSettingOf_def)
  show d: "dom (getAPIResources tc (r\<lparr>paths := ps\<rparr>) :: 'x resources)
           = dom (getAPIResources tc (r\<lparr>paths := qs\<rparr>) :: 'x resources)"
    by (simp add: getAPIResources_dom dp dq w)
  assume c: "consistent (routeWrites tc (defaultSettingOf r) ps :: (string \<times> 'x fragment) list)"
  show "(getAPIResources tc (r\<lparr>paths := ps\<rparr>) :: 'x resources)
        = getAPIResources tc (r\<lparr>paths := qs\<rparr>)"
  proof (rule ext)
    fix k
    show "(getAPIResources tc (r\<lparr>paths := ps\<rparr>) :: 'x resources) k
          = getAPIResources tc (r\<lparr>paths := qs\<rparr>) k"
    proof (cases "(getAPIResources tc (r\<lparr>paths := ps\<rparr>) :: 'x resources) k")
      case None
      then have "k \<notin> dom (getAPIResources tc (r\<lparr>paths := ps\<rparr>) :: 'x resources)"
        by (simp add: domIff)
      with d have "k \<notin> dom (getAPIResources tc (r\<lparr>paths := qs\<rparr>) :: 'x resources)"
        by simp
      then have "(getAPIResources tc (r\<lparr>paths := qs\<rparr>) :: 'x resources) k = None"
        by (simp add: domIff)
      with None show ?thesis by simp
    next
      case (Some f)
      then have "k \<in> dom (getAPIResources tc (r\<lparr>paths := ps\<rparr>) :: 'x resources)"
        by (simp add: domIff)
      with d have "k \<in> dom (getAPIResources tc (r\<lparr>paths := qs\<rparr>) :: 'x resources)"
        by simp
      then obtain f' where f': "(getAPIResources tc (r\<lparr>paths := qs\<rparr>) :: 'x resources) k = Some f'"
        by auto
      from getAPIResources_graph [OF Some] have 1: "(k, f) \<in> set (routeWrites tc (defaultSettingOf r) ps)"
        by (simp add: dp)
      from getAPIResources_graph [OF f'] have 2: "(k, f') \<in> set (routeWrites tc (defaultSettingOf r) ps)"
        by (simp add: dq w)
      from c 1 2 have "f = f'" unfolding consistent_def by fastforce
      with Some f' show ?thesis by simp
    qed
  qed
next
  show "walk tc ds methods parent (split CHR ''/'' (trimPath ''/'')) (result :: 'x resources)
         = (parent, result ++ createAPIMethod parent ds methods)"
    by (simp add: trimPath_def)
qed

text \<open>The claim as stated fails: the paths \<open>/users\<close> and \<open>/users/\<close> attach their methods to the
  same node, each with a preflight fragment of its own under the same name, and the later
  entry wins.\<close>

theorem getAPIResources_any_order_counterexample:
  "mset [usersGet, usersPost] = mset [usersPost, usersGet]
   \<and> (getAPIResources (titlecase exampleModules)
         \<lparr>paths = [usersGet, usersPost], x_rise_default = None\<rparr> :: unit resources)
         ''RiseAPIResourceUsersOPTIONS''
       = Some (ApiCors ''POST,OPTIONS'' (Ref ''RiseAPIResourceUsers''))
   \<and> (getAPIResources (titlecase exampleModules)
         \<lparr>paths = [usersPost, usersGet], x_rise_default = None\<rparr> :: unit resources)
         ''RiseAPIResourceUsersOPTIONS''
       = Some (ApiCors ''GET,OPTIONS'' (Ref ''RiseAPIResourceUsers''))"
  by (simp add: getAPIResources_def trimPath_def stripBraces_def createAPIMethod_def
        createAPIResource_def exampleModules_def toUpperCase_def toUpperCaseChar_def
        resolveCors_def resourceIdOf_def Let_def usersGet_def usersPost_def)

theorem getAPIResources_any_order_witness:
  "mset [rootGet, userShow] = mset [userShow, rootGet]
   \<and> consistent (routeWrites (titlecase exampleModules) \<lparr>default_cors = None\<rparr>
                   [rootGet, userShow] :: (string \<times> unit fragment) list)
   \<and> dom (getAPIResources (titlecase exampleModules)
         \<lparr>paths = [rootGet, userShow], x_rise_default = None\<rparr> :: unit resources)
     = dom (getAPIResources (titlecase exampleModules)
         \<lparr>paths = [userShow, rootGet], x_rise_default = None\<rparr> :: unit resources)
   \<and> (getAPIResources (titlecase exampleModules)
         \<lparr>paths = [rootGet, userShow], x_rise_default = None\<rparr> :: unit resources)
     = getAPIResources (titlecase exampleModules)
         \<lparr>paths = [userShow, rootGet], x_rise_default = None\<rparr>
   \<and> (getAPIResources (titlecase exampleModules)
         \<lparr>paths = [userShow, rootGet], x_rise_default = None\<rparr> :: unit resources)
         ''RiseAPIResourceUsersIdOPTIONS''
     = Some (ApiCors ''GET,OPTIONS'' (Ref ''RiseAPIResourceUsersId''))"
proof -
  let ?tc = "titlecase exampleModules"
  let ?r = "\<lparr>paths = [], x_rise_default = None\<rparr>"
  have m: "mset [rootGet, userShow] = mset [userShow, rootGet]"
    by (simp add: add_mset_commute)
  have d: "defaultSettingOf ?r = \<lparr>default_cors = None\<rparr>"
    by (simp add: defaultSettingOf_def)
  have c: "consistent (routeWrites ?tc \<lparr>default_cors = None\<rparr> [rootGet, userShow]
                         :: (string \<times> unit fragment) list)"
    by (simp add: consistent_def routeWrites_def writesFrom_def apiMethodWrites_def
          corsEnabled_def methodBinding_def trimPath_def stripBraces_def exampleModules_def
          toUpperCase_def toUpperCaseChar_def resolveCors_def resourceIdOf_def Let_def
          rootGet_def userShow_def)
  have e: "(getAPIResources ?tc \<lparr>paths = [userShow, rootGet], x_rise_default = None\<rparr>
              :: unit resources) ''RiseAPIResourceUsersIdOPTIONS''
           = Some (ApiCors ''GET,OPTIONS'' (Ref ''RiseAPIResourceUsersId''))"
    by (simp add: getAPIResources_def trimPath_def stripBraces_def createAPIMethod_def
          createAPIResource_def exampleModules_def toUpperCase_def toUpperCaseChar_def
          resolveCors_def resourceIdOf_def Let_def rootGet_def userShow_def)
  from getAPIResources_any_order [OF m, of ?tc ?r, where ?'x = unit] c d
  have "dom (getAPIResources ?tc \<lparr>paths = [rootGet, userShow], x_rise_default = None\<rparr>
               :: unit resources)
        = dom (getAPIResources ?tc \<lparr>paths = [userShow, rootGet], x_rise_default = None\<rparr>
               :: unit resources)
      \<and> (getAPIResources ?tc \<lparr>paths = [rootGet, userShow], x_rise_default = None\<rparr>
               :: unit resources)
        = getAPIResources ?tc \<lparr>paths = [userShow, rootGet], x_rise_default = None\<rparr>"
    by simp
  with m c e show ?thesis by blast
qed

section \<open>The update step\<close>

lemma updateStack_on_error:
  assumes "remoteError cf = Some err"
  shows "updateStack mods cf session = updateStack_catch (submitted mods cf session) err"
  using assms
  by (auto simp: updateStack_def remoteError_def submitted_def waitForUpdate_def Let_def
           split: option.splits)

lemma indexOf_found_nonempty: "indexOf_found msg (c # pat) \<Longrightarrow> msg \<noteq> []"
  by (cases msg) auto

text \<open>
  Claim C1, as amended. When the remote update fails with an error whose message contains
  \<open>Resource is not in the state stackUpdateComplete\<close>, the update step resolves with the
  session exactly when the session's state is no longer \<open>UPDATING\<close> as the error is handled
  (or the message also reports that no updates are to be performed); while the state is
  still \<open>UPDATING\<close>, as the step itself left it, the error is propagated. The handler
  leaves the session as it found it.
\<close>

theorem updateStack_not_ready:
  assumes "remoteError cf = Some err" and "message err = Some msg"
    and "indexOf_found msg ''Resource is not in the state stackUpdateComplete''"
  shows "updateStack mods cf session =
           (submitted mods cf session,
            if state (submitted mods cf session) \<noteq> ''UPDATING''
               \<or> indexOf_found msg ''No updates are to be performed''
            then Resolved else Rejected err)"
  using assms indexOf_found_nonempty [of msg]
  by (simp add: updateStack_on_error updateStack_catch_def)

theorem updateStack_not_ready_witness:
  "remoteError \<lparr>cf_updateStack = None, cf_waitFor = Some notReadyError,
                 cancelling = Some ''CANCELLING''\<rparr> = Some notReadyError
   \<and> message notReadyError = Some ''Resource is not in the state stackUpdateComplete''
   \<and> indexOf_found ''Resource is not in the state stackUpdateComplete''
         ''Resource is not in the state stackUpdateComplete''
   \<and> updateStack exampleModules
         \<lparr>cf_updateStack = None, cf_waitFor = Some notReadyError,
          cancelling = Some ''CANCELLING''\<rparr> exampleSession
       = (exampleSession\<lparr>cfTemplate := buildTemplate exampleModules exampleSession,
                          state := ''CANCELLING''\<rparr>, Resolved)"
proof -
  let ?cf = "\<lparr>cf_updateStack = None, cf_waitFor = Some notReadyError,
              cancelling = Some ''CANCELLING''\<rparr>"
  have a: "remoteError ?cf = Some notReadyError" by (simp add: remoteError_def)
  have b: "message notReadyError = Some ''Resource is not in the state stackUpdateComplete''"
    by (simp add: notReadyError_def)
  have c: "indexOf_found ''Resource is not in the state stackUpdateComplete''
             ''Resource is not in the state stackUpdateComplete''"
    by simp
  show ?thesis
    using updateStack_not_ready [OF a b c, of exampleModules exampleSession] a b c
    by (simp add: submitted_def)
qed

text \<open>The claim as stated fails: with the state still \<open>UPDATING\<close> (nothing was written
  into the session meanwhile) the step rejects with the error.\<close>

theorem updateStack_not_ready_counterexample:
  "updateStack exampleModules
     \<lparr>cf_updateStack = Some notReadyError, cf_waitFor = None, cancelling = None\<rparr>
     exampleSession
   = (exampleSession\<lparr>cfTemplate := buildTemplate exampleModules exampleSession,
                      state := ''UPDATING''\<rparr>, Rejected notReadyError)"
  by (simp add: updateStack_def waitForUpdate_def updateStack_catch_def notReadyError_def)

text \<open>
  Claim C2, as amended. When the remote update fails with an error whose message contains
  \<open>No updates are to be performed\<close>, the update step resolves with the session, which the
  handler leaves as it found it: the state stays \<open>UPDATING\<close>, where the step put it before
  submitting, unless another tag was written meanwhile. Every other error is propagated
  unchanged and the step rejects, except an error whose message contains
  \<open>Resource is not in the state stackUpdateComplete\<close> handled while the state is not
  \<open>UPDATING\<close>.
\<close>

theorem updateStack_no_updates:
  assumes "remoteError cf = Some err"
  shows "(\<forall>msg. message err = Some msg \<and> indexOf_found msg ''No updates are to be performed''
            \<longrightarrow> updateStack mods cf session = (submitted mods cf session, Resolved))
       \<and> ((\<forall>msg. message err = Some msg \<longrightarrow>
               \<not> indexOf_found msg ''No updates are to be performed''
               \<and> (state (submitted mods cf session) = ''UPDATING''
                    \<or> \<not> indexOf_found msg ''Resource is not in the state stackUpdateComplete''))
            \<longrightarrow> updateStack mods cf session = (submitted mods cf session, Rejected err))
       \<and> (cancelling cf = None \<longrightarrow> state (submitted mods cf session) = ''UPDATING'')"
proof (intro conjI allI impI)
  fix msg
  assume m: "message err = Some msg \<and> indexOf_found msg ''No updates are to be performed''"
  then have "msg \<noteq> []" by (cases msg) simp_all
  with m show "updateStack mods cf session = (submitted mods cf session, Resolved)"
    by (simp add: updateStack_on_error [OF assms] updateStack_catch_def)
next
  assume "\<forall>msg. message err = Some msg \<longrightarrow>
               \<not> indexOf_found msg ''No updates are to be performed''
               \<and> (state (submitted mods cf session) = ''UPDATING''
                    \<or> \<not> indexOf_found msg ''Resource is not in the state stackUpdateComplete'')"
  then show "updateStack mods cf session = (submitted mods cf session, Rejected err)"
    by (auto simp: updateStack_on_error [OF assms] updateStack_catch_def split: option.splits)
next
  assume "cancelling cf = None"
  then show "state (submitted mods cf session) = ''UPDATING''"
    by (simp add: submitted_def)
qed

theorem updateStack_no_updates_witness:
  "remoteError \<lparr>cf_updateStack = Some noUpdatesError, cf_waitFor = None, cancelling = None\<rparr>
     = Some noUpdatesError
   \<and> message noUpdatesError = Some ''No updates are to be performed.''
   \<and> indexOf_found ''No updates are to be performed.'' ''No updates are to be performed''
   \<and> updateStack exampleModules
         \<lparr>cf_updateStack = Some noUpdatesError, cf_waitFor = None, cancelling = None\<rparr>
         exampleSession
       = (exampleSession\<lparr>cfTemplate := buildTemplate exampleModules exampleSession,
                          state := ''UPDATING''\<rparr>, Resolved)
   \<and> remoteError \<lparr>cf_updateStack = Some \<lparr>code = ''AccessDenied'', message = Some ''denied''\<rparr>,
                   cf_waitFor = None, cancelling = None\<rparr>
       = Some \<lparr>code = ''AccessDenied'', message = Some ''denied''\<rparr>
   \<and> updateStack exampleModules
         \<lparr>cf_updateStack = Some \<lparr>code = ''AccessDenied'', message = Some ''denied''\<rparr>,
          cf_waitFor = None, cancelling = None\<rparr>
         exampleSession
       = (exampleSession\<lparr>cfTemplate := buildTemplate exampleModules exampleSession,
                          state := ''UPDATING''\<rparr>,
          Rejected \<lparr>code = ''AccessDenied'', message = Some ''denied''\<rparr>)"
proof -
  let ?cf = "\<lparr>cf_updateStack = Some noUpdatesError, cf_waitFor = None, cancelling = None\<rparr>"
  let ?denied = "\<lparr>code = ''AccessDenied'', message = Some ''denied''\<rparr>"
  let ?cf' = "\<lparr>cf_updateStack = Some ?denied, cf_waitFor = None, cancelling = None\<rparr>"
  have a: "remoteError ?cf = Some noUpdatesError" by (simp add: remoteError_def)
  have b: "message noUpdatesError = Some ''No updates are to be performed.''"
    by (simp add: noUpdatesError_def)
  have c: "indexOf_found ''No updates are to be performed.'' ''No updates are to be performed''"
    by simp
  have a': "remoteError ?cf' = Some ?denied" by (simp add: remoteError_def)
  have d: "\<not> indexOf_found ''denied'' ''No updates are to be performed''" by simp
  have 1: "updateStack exampleModules ?cf exampleSession
           = (submitted exampleModules ?cf exampleSession, Resolved)"
    using updateStack_no_updates [OF a, of exampleModules exampleSession] b c by blast
  have 2: "updateStack exampleModules ?cf' exampleSession
           = (submitted exampleModules ?cf' exampleSession, Rejected ?denied)"
    using updateStack_no_updates [OF a', of exampleModules exampleSession] d
    by (simp add: submitted_def)
  show ?thesis using a b c a' 1 2 by (simp add: submitted_def)
qed

text \<open>The claim as stated fails: an error that does not report \<open>No updates\<close> is not
  propagated when it reports the resource as not ready and the state is no longer
  \<open>UPDATING\<close>.\<close>

theorem updateStack_no_updates_counterexample:
  "\<not> indexOf_found ''Resource is not in the state stackUpdateComplete''
        ''No updates are to be performed''
   \<and> updateStack exampleModules
         \<lparr>cf_updateStack = Some notReadyError, cf_waitFor = None,
          cancelling = Some ''CANCELLING''\<rparr> exampleSession
       = (exampleSession\<lparr>cfTemplate := buildTemplate exampleModules exampleSession,
                          state := ''CANCELLING''\<rparr>, Resolved)"
  by (simp add: updateStack_def updateStack_catch_def notReadyError_def)

section \<open>The function fragments\<close>

lemma getFunctionResources_loop_dom:
  "dom (getFunctionResources_loop bucket fns ds us r) = dom r \<union> (\<Union>u\<in>set us. functionNames u)"
  by (induction us arbitrary: r) (auto simp: Let_def functionNames_def)

lemma getFunctionResources_dom:
  "dom (getFunctionResources bucket ver fns us) = (\<Union>u\<in>set us. functionNames u)"
  by (simp add: getFunctionResources_def getFunctionResources_loop_dom)

text \<open>The older \<^verbatim>\<open>DeployFunctions\<close> emits nothing for the manifest key \<open>default\<close>.\<close>

lemma DeployFunctions_names_default:
  "DeployFunctions_names (before @ ''default'' # after) = DeployFunctions_names (before @ after)"
  by (induction before) (simp_all add: Let_def)

text \<open>
  Claim C3 at an uploaded-package record named \<open>default\<close>: function-resource synthesis
  walks the uploaded-package records and leaves no name out, so the record gets its three
  fragments \<open>default\<close>, \<open>defaultVersion\<close> and \<open>defaultPermission\<close>, with the settings
  of the manifest entry \<open>default\<close> as its own. The older \<^verbatim>\<open>DeployFunctions\<close> emits nothing
  for the key \<open>default\<close>.
\<close>

theorem getFunctionResources_uploaded_default:
  "(getFunctionResources ''my-bucket'' ''v1''
      [(''default'', Some \<lparr>timeout = Some 10, memory = None,
                            triggers = (None :: unit obj list option), bare = False\<rparr>)]
      [\<lparr>functionName = ''default'', uploadPath = ''default-v1.zip''\<rparr>] :: unit resources)
      ''default''
     = Some (LambdaFunction ''index'' ''default-v1.zip'' ''my-bucket'' (Some 10) None)
   \<and> (getFunctionResources ''my-bucket'' ''v1''
      [(''default'', Some \<lparr>timeout = Some 10, memory = None,
                            triggers = (None :: unit obj list option), bare = False\<rparr>)]
      [\<lparr>functionName = ''default'', uploadPath = ''default-v1.zip''\<rparr>] :: unit resources)
      ''defaultVersion'' = Some (LambdaVersion ''default'')
   \<and> (getFunctionResources ''my-bucket'' ''v1''
      [(''default'', Some \<lparr>timeout = Some 10, memory = None,
                            triggers = (None :: unit obj list option), bare = False\<rparr>)]
      [\<lparr>functionName = ''default'', uploadPath = ''default-v1.zip''\<rparr>] :: unit resources)
      ''defaultPermission'' = Some (LambdaPermission ''default'')
   \<and> DeployFunctions_names [''default''] = []"
  by (simp add: getFunctionResources_def entryOf_def Let_def)

text \<open>
  Claim C4 at a manifest whose \<open>default\<close> entry sets the memory and no timeout, for an
  uploaded function with no entry of its own: the built-in timeout 3 is not reached, the
  fragment carries no timeout at all (\<^verbatim>\<open>undefined\<close> is spliced into the template). The
  built-ins are reached when the manifest has no \<open>default\<close> entry.
\<close>

theorem getFunctionResources_default_without_timeout:
  "(getFunctionResources ''my-bucket'' ''v1''
      [(''default'', Some \<lparr>timeout = None, memory = Some 256,
                            triggers = (None :: unit obj list option), bare = False\<rparr>)]
      [\<lparr>functionName = ''appIndex'', uploadPath = ''appIndex-v1.zip''\<rparr>] :: unit resources)
      ''appIndex''
   = Some (LambdaFunction ''index'' ''appIndex-v1.zip'' ''my-bucket'' None (Some 256))
   \<and> (getFunctionResources ''my-bucket'' ''v1'' ([] :: unit manifest)
      [\<lparr>functionName = ''appIndex'', uploadPath = ''appIndex-v1.zip''\<rparr>] :: unit resources)
      ''appIndex''
   = Some (LambdaFunction ''index'' ''appIndex-v1.zip'' ''my-bucket'' (Some 3) (Some 128))"
  by (simp add: getFunctionResources_def entryOf_def Let_def)

section \<open>The trigger fragments\<close>

lemma trigger_step_log:
  "trigger_step b rg ro fn d (r, l)
   = (fst (trigger_step b rg ro fn d (r, [])), l @ (if recognized d then [] else [warning d]))"
proof (cases d)
  case Nil
  then show ?thesis by (simp add: recognized_def warning_def)
next
  case (Cons e others)
  obtain k c where e: "e = (k, c)" by (cases e)
  show ?thesis
    unfolding Cons e by (simp add: recognized_def recognizedKind_def warning_def)
qed

lemma trigger_step_unrecognized:
  "\<not> recognized d \<Longrightarrow> trigger_step b rg ro fn d (r, l) = (r, l @ [warning d])"
proof (cases d)
  case Nil
  then show ?thesis by (simp add: warning_def)
next
  case (Cons e others)
  obtain k c where e: "e = (k, c)" by (cases e)
  assume "\<not> recognized d"
  then show ?thesis
    unfolding Cons e by (simp add: recognized_def recognizedKind_def warning_def)
qed

lemma triggers_loop_split:
  "triggers_loop b rg ro fn ts (r, l)
   = (fst (triggers_loop b rg ro fn (filter recognized ts) (r, [])),
      l @ map warning (filter (\<lambda>d. \<not> recognized d) ts))"
proof (induction ts arbitrary: r l)
  case Nil
  show ?case by simp
next
  case (Cons d ts)
  show ?case
  proof (cases "recognized d")
    case True
    have "triggers_loop b rg ro fn (d # ts) (r, l)
          = triggers_loop b rg ro fn ts (fst (trigger_step b rg ro fn d (r, [])), l)"
      using trigger_step_log [of b rg ro fn d r l] True by simp
    also have "\<dots> = (fst (triggers_loop b rg ro fn (filter recognized ts)
                          (fst (trigger_step b rg ro fn d (r, [])), [])),
                     l @ map warning (filter (\<lambda>d. \<not> recognized d) ts))"
      by (rule Cons.IH)
    also have "(fst (trigger_step b rg ro fn d (r, [])), [])
               = trigger_step b rg ro fn d (r, [])"
      using trigger_step_log [of b rg ro fn d r "[]"] True by simp
    finally show ?thesis using True by simp
  next
    case False
    have "triggers_loop b rg ro fn (d # ts) (r, l)
          = triggers_loop b rg ro fn ts (r, l @ [warning d])"
      by (simp add: trigger_step_unrecognized [OF False])
    also have "\<dots> = (fst (triggers_loop b rg ro fn (filter recognized ts) (r, [])),
                     (l @ [warning d]) @ map warning (filter (\<lambda>d. \<not> recognized d) ts))"
      by (rule Cons.IH)
    finally show ?thesis using False by simp
  qed
qed

lemma triggers_loop_fst:
  "fst (triggers_loop b rg ro fn ts (r, l))
   = fst (triggers_loop b rg ro fn (filter recognized ts) (r, l'))"
  using triggers_loop_split [of b rg ro fn ts r l]
        triggers_loop_split [of b rg ro fn "filter recognized ts" r l']
  by simp

lemma triggersFor_recognizedOnly:
  "triggersFor (map_option (filter recognized) dt) (map_option recognizedOnly e)
   = map_option (filter recognized) (triggersFor dt e)"
  by (cases e) (simp_all add: triggersFor_def recognizedOnly_def)

lemma getTriggerResources_loop_fst:
  "fst (getTriggerResources_loop b rg ro dt fns (r, l))
   = fst (getTriggerResources_loop b rg ro (map_option (filter recognized) dt)
            (withoutUnrecognized fns) (r, l'))"
proof (induction fns arbitrary: r l l')
  case Nil
  show ?case by (simp add: withoutUnrecognized_def)
next
  case (Cons e fns)
  let ?dt = "map_option (filter recognized) dt"
  obtain fn entry where e: "e = (fn, entry)" by (cases e)
  have w: "withoutUnrecognized (e # fns)
           = (fn, map_option recognizedOnly entry) # withoutUnrecognized fns"
    by (simp add: withoutUnrecognized_def e)
  have t: "triggersFor ?dt (map_option recognizedOnly entry)
           = map_option (filter recognized) (triggersFor dt entry)"
    by (rule triggersFor_recognizedOnly)
  show ?case
  proof (cases "fn = ''default''")
    case True
    have "fst (getTriggerResources_loop b rg ro dt (e # fns) (r, l))
          = fst (getTriggerResources_loop b rg ro dt fns (r, l))"
      by (simp add: e True)
    also have "\<dots> = fst (getTriggerResources_loop b rg ro ?dt (withoutUnrecognized fns) (r, l'))"
      by (rule Cons.IH)
    also have "\<dots> = fst (getTriggerResources_loop b rg ro ?dt (withoutUnrecognized (e # fns))
                           (r, l'))"
      by (simp add: w True)
    finally show ?thesis .
  next
    case False
    show ?thesis
    proof (cases "triggersFor dt entry")
      case None
      have "fst (getTriggerResources_loop b rg ro dt (e # fns) (r, l))
            = fst (getTriggerResources_loop b rg ro dt fns (r, l))"
        by (simp add: e False None)
      also have "\<dots> = fst (getTriggerResources_loop b rg ro ?dt (withoutUnrecognized fns) (r, l'))"
        by (rule Cons.IH)
      also have "\<dots> = fst (getTriggerResources_loop b rg ro ?dt (withoutUnrecognized (e # fns))
                             (r, l'))"
        by (simp add: w False t None)
      finally show ?thesis .
    next
      case (Some ts)
      obtain r1 l1 where s1: "triggers_loop b rg ro fn ts (r, l) = (r1, l1)"
        by (metis surj_pair)
      obtain r2 l2 where s2: "triggers_loop b rg ro fn (filter recognized ts) (r, l') = (r2, l2)"
        by (metis surj_pair)
      have r12: "r1 = r2"
        using triggers_loop_fst [of b rg ro fn ts r l l'] s1 s2 by simp
      have "fst (getTriggerResources_loop b rg ro dt (e # fns) (r, l))
            = fst (getTriggerResources_loop b rg ro dt fns (r1, l1))"
        by (simp add: e False Some s1)
      also have "\<dots> = fst (getTriggerResources_loop b rg ro ?dt (withoutUnrecognized fns)
                             (r1, l2))"
        by (rule Cons.IH)
      also have "\<dots> = fst (getTriggerResources_loop b rg ro ?dt (withoutUnrecognized (e # fns))
                             (r, l'))"
        by (simp add: w False t Some s2 r12)
      finally show ?thesis .
    qed
  qed
qed

lemma entryOf_withoutUnrecognized:
  "entryOf (withoutUnrecognized fns) n = map_option recognizedOnly (entryOf fns n)"
proof -
  have "map_of (withoutUnrecognized fns) n = map_option (map_option recognizedOnly) (map_of fns n)"
    by (induction fns) (auto simp: withoutUnrecognized_def)
  then show ?thesis
    by (auto simp: entryOf_def split: option.splits)
qed

lemma trigger_step_recognized:
  "recognized d \<Longrightarrow>
   trigger_step b rg ro fn d (r, l) = (r ++ builderFragments b rg ro (fn, d), l)"
proof (cases d)
  case Nil
  assume "recognized d"
  with Nil show ?thesis by (simp add: recognized_def)
next
  case (Cons e others)
  obtain k c where e: "e = (k, c)" by (cases e)
  assume "recognized d"
  then show ?thesis
    unfolding Cons e by (auto simp: recognized_def recognizedKind_def builderFragments_def)
qed

lemma triggers_loop_closed:
  "triggers_loop b rg ro fn ts (r, l)
   = (foldl (++) r (map (builderFragments b rg ro)
                      (filter (\<lambda>fd. recognized (snd fd)) (map (\<lambda>d. (fn, d)) ts))),
      l @ map (\<lambda>fd. warning (snd fd))
            (filter (\<lambda>fd. \<not> recognized (snd fd)) (map (\<lambda>d. (fn, d)) ts)))"
proof (induction ts arbitrary: r l)
  case Nil
  show ?case by simp
next
  case (Cons d ts)
  show ?case
  proof (cases "recognized d")
    case True
    then show ?thesis
      by (simp add: trigger_step_recognized [OF True] Cons.IH)
  next
    case False
    then show ?thesis
      by (simp add: trigger_step_unrecognized [OF False] Cons.IH)
  qed
qed

lemma getTriggerResources_loop_closed:
  "getTriggerResources_loop b rg ro dt fns (r, l)
   = (foldl (++) r (map (builderFragments b rg ro)
                      (filter (\<lambda>fd. recognized (snd fd)) (declarationsWith dt fns))),
      l @ map (\<lambda>fd. warning (snd fd))
            (filter (\<lambda>fd. \<not> recognized (snd fd)) (declarationsWith dt fns)))"
proof (induction fns arbitrary: r l)
  case Nil
  show ?case by (simp add: declarationsWith_def)
next
  case (Cons e fns)
  obtain fn entry where e: "e = (fn, entry)" by (cases e)
  have dw: "declarationsWith dt (e # fns)
            = (if fn = ''default'' then []
               else (case triggersFor dt entry of None \<Rightarrow> [] | Some ts \<Rightarrow> map (\<lambda>d. (fn, d)) ts))
              @ declarationsWith dt fns"
    by (simp add: declarationsWith_def e split: option.split)
  show ?case
  proof (cases "fn = ''default''")
    case True
    then show ?thesis unfolding dw by (simp add: e Cons.IH)
  next
    case False
    show ?thesis
    proof (cases "triggersFor dt entry")
      case None
      with False show ?thesis unfolding dw by (simp add: e Cons.IH)
    next
      case (Some ts)
      with False show ?thesis
        unfolding dw by (simp add: e Cons.IH triggers_loop_closed)
    qed
  qed
qed

lemma getTriggerResources_closed:
  "getTriggerResources b fns rg ro
   = (foldl (++) Map.empty (map (builderFragments b rg ro)
                      (filter (\<lambda>fd. recognized (snd fd)) (declarations fns))),
      map (\<lambda>fd. warning (snd fd))
            (filter (\<lambda>fd. \<not> recognized (snd fd)) (declarations fns)))"
  by (simp add: getTriggerResources_def declarations_def getTriggerResources_loop_closed Let_def)

text \<open>
  Claim C9. A trigger declaration whose kind is none of \<open>s3\<close>, \<open>cloudwatch_events\<close>,
  \<open>cloudwatch_logs\<close>, \<open>stream\<close> and \<open>sns\<close> leaves the fragments as they are and logs one
  warning; synthesis goes on. For a function's trigger list the fragments are those of its
  recognized declarations and the log gains the warnings of the others, in order. For the
  whole manifest, trigger-resource synthesis returns the fragments that the builders give
  for the recognized declarations, merged in order, which are also the fragments of the
  manifest without the unrecognized declarations, and its log holds exactly one warning
  for every unrecognized declaration, in order.
\<close>

theorem getTriggerResources_skips_unrecognized:
  "(\<not> recognized decl \<longrightarrow>
      trigger_step b region' roleResource funcName decl (resources, log)
      = (resources, log @ [warning decl]))
   \<and> triggers_loop b region' roleResource funcName ts (resources, log)
     = (fst (triggers_loop b region' roleResource funcName (filter recognized ts) (resources, [])),
        log @ map warning (filter (\<lambda>d. \<not> recognized d) ts))
   \<and> fst (getTriggerResources b fns region' roleResource)
     = fst (getTriggerResources b (withoutUnrecognized fns) region' roleResource)
   \<and> getTriggerResources b fns region' roleResource
     = (foldl (++) Map.empty
          (map (builderFragments b region' roleResource)
             (filter (\<lambda>fd. recognized (snd fd)) (declarations fns))),
        map (\<lambda>fd. warning (snd fd))
          (filter (\<lambda>fd. \<not> recognized (snd fd)) (declarations fns)))"
proof (intro conjI impI)
  assume "\<not> recognized decl"
  then show "trigger_step b region' roleResource funcName decl (resources, log)
      = (resources, log @ [warning decl])"
    by (rule trigger_step_unrecognized)
next
  show "triggers_loop b region' roleResource funcName ts (resources, log)
     = (fst (triggers_loop b region' roleResource funcName (filter recognized ts) (resources, [])),
        log @ map warning (filter (\<lambda>d. \<not> recognized d) ts))"
    by (rule triggers_loop_split)
next
  have d: "(case entryOf (withoutUnrecognized fns) ''default'' of
              None \<Rightarrow> None | Some d \<Rightarrow> triggers d)
           = map_option (filter recognized)
               (case entryOf fns ''default'' of None \<Rightarrow> None | Some d \<Rightarrow> triggers d)"
    by (simp add: entryOf_withoutUnrecognized recognizedOnly_def split: option.splits)
  show "fst (getTriggerResources b fns region' roleResource)
     = fst (getTriggerResources b (withoutUnrecognized fns) region' roleResource)"
    unfolding getTriggerResources_def Let_def d
    by (rule getTriggerResources_loop_fst)
next
  show "getTriggerResources b fns region' roleResource
     = (foldl (++) Map.empty
          (map (builderFragments b region' roleResource)
             (filter (\<lambda>fd. recognized (snd fd)) (declarations fns))),
        map (\<lambda>fd. warning (snd fd))
          (filter (\<lambda>fd. \<not> recognized (snd fd)) (declarations fns)))"
    by (rule getTriggerResources_closed)
qed

theorem getTriggerResources_skips_unrecognized_witness:
  "\<not> recognized [(''sqs'', ''jobs'')]
   \<and> trigger_step exampleBuilders ''us-west-2'' None ''appIndex'' [(''sqs'', ''jobs'')]
         ([''appIndexS3'' \<mapsto> External ''uploads''], [])
       = ([''appIndexS3'' \<mapsto> External ''uploads''], [''Unknown trigger sqs.''])
   \<and> snd (getTriggerResources exampleBuilders exampleManifest ''us-west-2'' None)
       = [''Unknown trigger sqs.'', ''Unknown trigger kinesis.'']
   \<and> fst (getTriggerResources exampleBuilders exampleManifest ''us-west-2'' None) ''appIndexS3''
       = Some (External ''uploads'')
   \<and> fst (getTriggerResources exampleBuilders exampleManifest ''us-west-2'' None)
         ''appCreateEvent''
       = Some (External ''daily'')
   \<and> fst (getTriggerResources exampleBuilders exampleManifest ''us-west-2'' None) ''appShowSNS''
       = Some (External ''topic'')
   \<and> dom (fst (getTriggerResources exampleBuilders exampleManifest ''us-west-2'' None))
       = {''appIndexS3'', ''appCreateEvent'', ''appShowSNS''}"
proof -
  let ?sqs = "[(''sqs'', ''jobs'')]"
  let ?r = "[''appIndexS3'' \<mapsto> External ''uploads''] :: string resources"
  note inst = getTriggerResources_skips_unrecognized
                [of ?sqs exampleBuilders "''us-west-2''" None "''appIndex''" ?r "[]" "[]"
                    exampleManifest]
  have h: "\<not> recognized ?sqs"
    by (simp add: recognized_def recognizedKind_def)
  have w: "warning ?sqs = ''Unknown trigger sqs.''"
    by (simp add: warning_def)
  have ds: "declarations exampleManifest
            = [(''appIndex'', [(''s3'', ''uploads'')]), (''appIndex'', [(''sqs'', ''jobs'')]),
               (''appCreate'', [(''cloudwatch_events'', ''daily'')]),
               (''appShow'', [(''kinesis'', ''clicks'')]), (''appShow'', [(''sns'', ''topic'')])]"
    by (simp add: declarations_def declarationsWith_def exampleManifest_def entryOf_def
          triggersFor_def)
  from inst h w have 1: "trigger_step exampleBuilders ''us-west-2'' None ''appIndex'' ?sqs (?r, [])
                         = (?r, [''Unknown trigger sqs.''])"
    by simp
  from inst have 2: "getTriggerResources exampleBuilders exampleManifest ''us-west-2'' None
      = (foldl (++) Map.empty
          (map (builderFragments exampleBuilders ''us-west-2'' None)
             (filter (\<lambda>fd. recognized (snd fd)) (declarations exampleManifest))),
        map (\<lambda>fd. warning (snd fd))
          (filter (\<lambda>fd. \<not> recognized (snd fd)) (declarations exampleManifest)))"
    by blast
  have 3: "getTriggerResources exampleBuilders exampleManifest ''us-west-2'' None
           = ([''appIndexS3'' \<mapsto> External ''uploads'', ''appCreateEvent'' \<mapsto> External ''daily'',
               ''appShowSNS'' \<mapsto> External ''topic''],
              [''Unknown trigger sqs.'', ''Unknown trigger kinesis.''])"
    unfolding 2 ds
    by (simp add: recognized_def recognizedKind_def warning_def builderFragments_def
          exampleBuilders_def)
  from h 1 show ?thesis unfolding 3 by auto
qed

text \<open>
  Claim C5 at a manifest whose \<open>default\<close> entry declares a trigger and whose function
  \<open>appIndex\<close> has an entry that only sets a timeout: the default trigger list is not used and
  no trigger fragment is emitted, whatever the builders return. With \<open>appIndex\<close> declared
  without an entry (\<^verbatim>\<open>null\<close>), the default trigger is built for it.
\<close>

theorem getTriggerResources_entry_without_triggers:
  "fst (getTriggerResources b
          [(''default'', Some \<lparr>timeout = None, memory = None,
                                triggers = Some [[(''s3'', cfg)]], bare = False\<rparr>),
           (''appIndex'', Some \<lparr>timeout = Some 5, memory = None, triggers = None,
                                 bare = False\<rparr>)]
          region' roleResource) = Map.empty
   \<and> fst (getTriggerResources b
          [(''default'', Some \<lparr>timeout = None, memory = None,
                                triggers = Some [[(''s3'', cfg)]], bare = False\<rparr>),
           (''appIndex'', None)]
          region' roleResource) = getS3Trigger b cfg ''appIndex''"
  by (simp add: getTriggerResources_def entryOf_def triggersFor_def)

section \<open>The ping step\<close>

lemma pingTargets_set:
  "set (pingTargets st names fs)
   = {f \<in> set fs. \<exists>n\<in>set names. startsWith f (st @ ''-'' @ n)}"
  by (induction fs) auto

lemma promiseAll_Resolved: "promiseAll ps = Resolved \<longleftrightarrow> (\<forall>p\<in>set ps. p = Resolved)"
  by (induction ps rule: promiseAll.induct) auto

lemma pingPromise_Resolved:
  "pingPromise lambda f = Resolved
   \<longleftrightarrow> invoke lambda f ''{\"riseTest\":1}'' = Inr (200, ''{\"test\":\"ok\"}'')"
  by (auto simp: pingPromise_def split: sum.splits)

lemma pingPromiseAll_Resolved:
  "pingPromiseAll lambda st names fs = Resolved
   \<longleftrightarrow> (\<forall>f\<in>set (pingTargets st names fs).
          invoke lambda f ''{\"riseTest\":1}'' = Inr (200, ''{\"test\":\"ok\"}''))"
  by (simp add: pingPromiseAll_def promiseAll_Resolved pingPromise_Resolved)

text \<open>
  Claim C8. The names that the ping step collects are the manifest keys whose entry is not
  marked bare; it invokes the deployed functions whose name starts with the stack name, a
  hyphen and one of these names. Given the list of deployed functions, the step resolves
  with the state \<open>PINGED\<close> when every invocation answers status 200 with the payload
  \<open>{"test":"ok"}\<close>, and rejects (the state stays \<open>PINGING\<close>) as soon as one invocation fails
  or answers anything else, whatever the others answer.
\<close>

theorem pingFunctions_all_or_nothing:
  assumes "listFunctions lambda = Inr fs"
  shows "(\<forall>n. n \<in> set (functionNamesToPing (functions session))
              \<longleftrightarrow> (\<exists>e. (n, e) \<in> set (functions session) \<and> (\<forall>f. e = Some f \<longrightarrow> \<not> bare f)))
       \<and> (\<forall>f. f \<in> set (pingTargets (stackName session)
                           (functionNamesToPing (functions session)) fs)
              \<longleftrightarrow> f \<in> set fs \<and> (\<exists>n\<in>set (functionNamesToPing (functions session)).
                                    startsWith f (stackName session @ ''-'' @ n)))
       \<and> ((\<forall>f\<in>set (pingTargets (stackName session)
                         (functionNamesToPing (functions session)) fs).
               invoke lambda f ''{\"riseTest\":1}'' = Inr (200, ''{\"test\":\"ok\"}''))
            \<longrightarrow> pingFunctions lambda session = (session\<lparr>state := ''PINGED''\<rparr>, Resolved))
       \<and> ((\<exists>f\<in>set (pingTargets (stackName session)
                         (functionNamesToPing (functions session)) fs).
               invoke lambda f ''{\"riseTest\":1}'' \<noteq> Inr (200, ''{\"test\":\"ok\"}''))
            \<longrightarrow> (\<exists>err. pingFunctions lambda session
                         = (session\<lparr>state := ''PINGING''\<rparr>, Rejected err)))"
proof (intro conjI allI impI)
  fix n
  show "n \<in> set (functionNamesToPing (functions session))
        \<longleftrightarrow> (\<exists>e. (n, e) \<in> set (functions session) \<and> (\<forall>f. e = Some f \<longrightarrow> \<not> bare f))"
    by (force simp: functionNamesToPing_def split: option.splits)
next
  fix f
  show "f \<in> set (pingTargets (stackName session) (functionNamesToPing (functions session)) fs)
        \<longleftrightarrow> f \<in> set fs \<and> (\<exists>n\<in>set (functionNamesToPing (functions session)).
                              startsWith f (stackName session @ ''-'' @ n))"
    by (simp add: pingTargets_set)
next
  assume "\<forall>f\<in>set (pingTargets (stackName session)
                         (functionNamesToPing (functions session)) fs).
               invoke lambda f ''{\"riseTest\":1}'' = Inr (200, ''{\"test\":\"ok\"}'')"
  then have "pingPromiseAll lambda (stackName session)
               (functionNamesToPing (functions session)) fs = Resolved"
    by (simp add: pingPromiseAll_Resolved)
  then show "pingFunctions lambda session = (session\<lparr>state := ''PINGED''\<rparr>, Resolved)"
    by (simp add: pingFunctions_def assms)
next
  assume "\<exists>f\<in>set (pingTargets (stackName session)
                         (functionNamesToPing (functions session)) fs).
               invoke lambda f ''{\"riseTest\":1}'' \<noteq> Inr (200, ''{\"test\":\"ok\"}'')"
  then have "pingPromiseAll lambda (stackName session)
               (functionNamesToPing (functions session)) fs \<noteq> Resolved"
    by (simp add: pingPromiseAll_Resolved)
  then obtain err where "pingPromiseAll lambda (stackName session)
               (functionNamesToPing (functions session)) fs = Rejected err"
    by (cases "pingPromiseAll lambda (stackName session)
               (functionNamesToPing (functions session)) fs") auto
  then show "\<exists>err. pingFunctions lambda session = (session\<lparr>state := ''PINGING''\<rparr>, Rejected err)"
    by (simp add: pingFunctions_def assms)
qed


theorem pingFunctions_all_or_nothing_witness:
  "listFunctions healthyLambda = Inr deployedFunctions
   \<and> listFunctions brokenLambda = Inr deployedFunctions
   \<and> pingTargets (stackName pingSession) (functionNamesToPing (functions pingSession))
         deployedFunctions
       = [''my-stack-appIndex-1A2B'', ''my-stack-appCreate-3C4D'']
   \<and> pingFunctions healthyLambda pingSession = (pingSession\<lparr>state := ''PINGED''\<rparr>, Resolved)
   \<and> (\<exists>err. pingFunctions brokenLambda pingSession
               = (pingSession\<lparr>state := ''PINGING''\<rparr>, Rejected err))"
proof -
  have a: "listFunctions healthyLambda = Inr deployedFunctions"
    by (simp add: healthyLambda_def)
  have b: "listFunctions brokenLambda = Inr deployedFunctions"
    by (simp add: brokenLambda_def)
  have t: "pingTargets (stackName pingSession) (functionNamesToPing (functions pingSession))
             deployedFunctions
           = [''my-stack-appIndex-1A2B'', ''my-stack-appCreate-3C4D'']"
    by (simp add: pingSession_def exampleSession_def functionNamesToPing_def
          deployedFunctions_def startsWith_def)
  have ok: "\<forall>f\<in>set (pingTargets (stackName pingSession)
                        (functionNamesToPing (functions pingSession)) deployedFunctions).
              invoke healthyLambda f ''{\"riseTest\":1}'' = Inr (200, ''{\"test\":\"ok\"}'')"
    by (simp add: t healthyLambda_def)
  have bad: "\<exists>f\<in>set (pingTargets (stackName pingSession)
                        (functionNamesToPing (functions pingSession)) deployedFunctions).
              invoke brokenLambda f ''{\"riseTest\":1}'' \<noteq> Inr (200, ''{\"test\":\"ok\"}'')"
    by (simp add: t brokenLambda_def)
  have 1: "pingFunctions healthyLambda pingSession = (pingSession\<lparr>state := ''PINGED''\<rparr>, Resolved)"
    using pingFunctions_all_or_nothing [OF a, of pingSession] ok by blast
  have 2: "\<exists>err. pingFunctions brokenLambda pingSession
               = (pingSession\<lparr>state := ''PINGING''\<rparr>, Rejected err)"
    using pingFunctions_all_or_nothing [OF b, of pingSession] bad by blast
  from a b t 1 2 show ?thesis by blast
qed

end
